theory Spec2Isabelle
  imports Complex_Main
begin

section \<open>Faults\<close>

text \<open>
  What C++ leaves undefined, and an exception that nothing catches, end a run of the
  model with a fault:
  \<^item> \<open>OutOfRange\<close>: an element outside a container was indexed (\<^verbatim>\<open>m_data[f]\<close> with no
    frame \<open>f\<close>, an iterator moved past its column);
  \<^item> \<open>MissingAesthetic\<close>: the \<^verbatim>\<open>Exception\<close> thrown by \<^verbatim>\<open>begin<T>()\<close> for an aesthetic
    the frame does not have;
  \<^item> \<open>BadCast\<close>: \<^verbatim>\<open>static_cast<int>\<close> of a float that no \<^verbatim>\<open>int\<close> holds.

  A function that may never return has an \<open>option\<close> result: \<open>None\<close> is the call that
  does not return.
\<close>

datatype fault = OutOfRange | MissingAesthetic | BadCast

definition and_then :: "fault + 'a \<Rightarrow> ('a \<Rightarrow> fault + 'b) \<Rightarrow> fault + 'b" where
  "and_then m k = (case m of Inl e \<Rightarrow> Inl e | Inr v \<Rightarrow> k v)"

section \<open>Binary32 numbers\<close>

text \<open>
  \<^verbatim>\<open>Vector.hpp\<close> and \<^verbatim>\<open>Axis.cpp\<close> compute on \<^verbatim>\<open>float\<close>, the IEEE 754 binary32 format,
  and what they return depends on its rounding, its infinities and its NaN. A \<open>float\<close>
  is therefore a sign and a magnitude, an infinity with its sign, or NaN; \<open>Finite s m\<close>
  has the sign \<open>s\<close> (\<open>True\<close> for negative) and the magnitude \<open>\<bar>m\<bar>\<close>, so that both zeros
  exist. Every arithmetic operation computes the exact result and rounds it once, to
  the nearest binary32 number, a tie to the one with an even last bit; a rounded
  magnitude of \<open>2 ^ 128\<close> or more is an infinity. The operations are not contracted: a
  product followed by a sum rounds twice. C++ \<^verbatim>\<open>int\<close> is \<open>int\<close>; the only place where its
  range matters is \<^verbatim>\<open>static_cast<int>\<close>.
\<close>

datatype float = Finite bool real | Infinity bool | NaN

text \<open>
  The exponent of a positive real \<open>x\<close>: the integer \<open>e\<close> with \<open>2 ^ e \<le> x < 2 ^ (e + 1)\<close>,
  found by halving from 2 upwards and by doubling below 1.
\<close>

function ilog_up :: "real \<Rightarrow> int" where
  "ilog_up x = (if 2 \<le> x then ilog_up (x / 2) + 1 else 0)"
  by pat_completeness auto
termination
proof (relation "measure (\<lambda>x. nat \<lfloor>x\<rfloor>)")
  show "wf (measure (\<lambda>x::real. nat \<lfloor>x\<rfloor>))" by simp
next
  fix x :: real
  assume "2 \<le> x"
  then have "\<lfloor>x / 2\<rfloor> < \<lfloor>x\<rfloor>" "0 < \<lfloor>x\<rfloor>" by linarith+
  then show "(x / 2, x) \<in> measure (\<lambda>x. nat \<lfloor>x\<rfloor>)" by simp
qed

function ilog_down :: "real \<Rightarrow> int" where
  "ilog_down x = (if 0 < x \<and> x < 1 then ilog_down (x * 2) - 1 else 0)"
  by pat_completeness auto
termination
proof (relation "measure (\<lambda>x. nat \<lfloor>1 / x\<rfloor>)")
  show "wf (measure (\<lambda>x::real. nat \<lfloor>1 / x\<rfloor>))" by simp
next
  fix x :: real
  assume a: "0 < x \<and> x < 1"
  have half: "\<lfloor>y / 2\<rfloor> < \<lfloor>y\<rfloor> \<and> 0 < \<lfloor>y\<rfloor>" if "1 < y" for y :: real
  proof -
    from that have pos: "0 < \<lfloor>y\<rfloor>" by linarith
    have "y / 2 < of_int \<lfloor>y\<rfloor>"
    proof (cases "y < 2")
      case True
      from pos have "1 \<le> (of_int \<lfloor>y\<rfloor> :: real)" by linarith
      with True show ?thesis by linarith
    next
      case False
      then show ?thesis by linarith
    qed
    then have "\<lfloor>y / 2\<rfloor> < \<lfloor>y\<rfloor>" by linarith
    with pos show ?thesis by simp
  qed
  from a have "1 < 1 / x" by simp
  from half [OF this] have "\<lfloor>1 / x / 2\<rfloor> < \<lfloor>1 / x\<rfloor>" "0 < \<lfloor>1 / x\<rfloor>" by blast+
  moreover have "1 / (x * 2) = 1 / x / 2" by simp
  ultimately have "nat \<lfloor>1 / (x * 2)\<rfloor> < nat \<lfloor>1 / x\<rfloor>" by (simp only: zless_nat_conj)
  then show "(x * 2, x) \<in> measure (\<lambda>x. nat \<lfloor>1 / x\<rfloor>)" by simp
qed

declare ilog_up.simps [simp del] ilog_down.simps [simp del]

definition ilog2 :: "real \<Rightarrow> int" where
  "ilog2 x = (if 1 \<le> x then ilog_up x else ilog_down x)"

text \<open>Rounding a real to the nearest integer, a tie to the even one.\<close>

definition round_even :: "real \<Rightarrow> int" where
  "round_even q =
     (let f = \<lfloor>q\<rfloor>; r = q - of_int f
      in if r < 1 / 2 then f else if 1 / 2 < r then f + 1 else if even f then f else f + 1)"

text \<open>
  Rounding a magnitude to 24 significant bits: the unit in the last place of a
  magnitude of exponent \<open>e\<close> is \<open>2 ^ (e - 23)\<close>, and \<open>2 ^ (- 149)\<close> for the subnormal
  magnitudes, those below \<open>2 ^ (- 126)\<close>. \<open>to_float\<close> gives the float of a sign and an exact
  magnitude, \<open>fl\<close> the float of a real: a literal of the code, or the conversion of a
  \<^verbatim>\<open>double\<close> or of an \<^verbatim>\<open>int\<close>.
\<close>

definition round_mag :: "real \<Rightarrow> real" where
  "round_mag m =
     (let e = max (ilog2 m) (- 126); u = 2 powi (e - 23)
      in of_int (round_even (m / u)) * u)"

definition to_float :: "bool \<Rightarrow> real \<Rightarrow> float" where
  "to_float s m = (let r = round_mag m in if 2 ^ 128 \<le> r then Infinity s else Finite s r)"

definition fl :: "real \<Rightarrow> float" where
  "fl x = to_float (x < 0) \<bar>x\<bar>"

text \<open>What a float is: NaN or not, infinite or not, its sign, its magnitude, its value.\<close>

fun is_nan :: "float \<Rightarrow> bool" where
  "is_nan NaN = True"
| "is_nan _ = False"

fun is_inf :: "float \<Rightarrow> bool" where
  "is_inf (Infinity s) = True"
| "is_inf _ = False"

fun sign :: "float \<Rightarrow> bool" where
  "sign (Finite s m) = s"
| "sign (Infinity s) = s"
| "sign NaN = False"

fun mag :: "float \<Rightarrow> real" where
  "mag (Finite s m) = \<bar>m\<bar>"
| "mag _ = 0"

definition is_finite :: "float \<Rightarrow> bool" where
  "is_finite a \<longleftrightarrow> \<not> is_nan a \<and> \<not> is_inf a"

definition is_zero :: "float \<Rightarrow> bool" where
  "is_zero a \<longleftrightarrow> is_finite a \<and> mag a = 0"

definition fval :: "float \<Rightarrow> real" where
  "fval a = (if sign a then - mag a else mag a)"

text \<open>
  \<^verbatim>\<open>a * b\<close>, \<^verbatim>\<open>a / b\<close>, \<^verbatim>\<open>a + b\<close> and \<^verbatim>\<open>a - b\<close> on floats. An infinity times zero, zero
  by zero, an infinity by an infinity and the sum of opposite infinities are NaN; a
  non-zero number by zero is an infinity; an exact sum of zero is \<open>+0\<close> unless both
  operands are negative.
\<close>

definition fmul :: "float \<Rightarrow> float \<Rightarrow> float" where
  "fmul a b =
     (if is_nan a \<or> is_nan b then NaN
      else if is_inf a \<or> is_inf b
      then (if is_zero a \<or> is_zero b then NaN else Infinity (sign a \<noteq> sign b))
      else to_float (sign a \<noteq> sign b) (mag a * mag b))"

definition fdiv :: "float \<Rightarrow> float \<Rightarrow> float" where
  "fdiv a b =
     (if is_nan a \<or> is_nan b then NaN
      else if is_inf a then (if is_inf b then NaN else Infinity (sign a \<noteq> sign b))
      else if is_inf b then Finite (sign a \<noteq> sign b) 0
      else if is_zero b then (if is_zero a then NaN else Infinity (sign a \<noteq> sign b))
      else to_float (sign a \<noteq> sign b) (mag a / mag b))"

definition fadd :: "float \<Rightarrow> float \<Rightarrow> float" where
  "fadd a b =
     (if is_nan a \<or> is_nan b then NaN
      else if is_inf a then (if is_inf b \<and> sign a \<noteq> sign b then NaN else Infinity (sign a))
      else if is_inf b then Infinity (sign b)
      else (let r = fval a + fval b
            in if r = 0 then Finite (sign a \<and> sign b) 0 else to_float (r < 0) \<bar>r\<bar>))"

fun fneg :: "float \<Rightarrow> float" where
  "fneg (Finite s m) = Finite (\<not> s) m"
| "fneg (Infinity s) = Infinity (\<not> s)"
| "fneg NaN = NaN"

definition fsub :: "float \<Rightarrow> float \<Rightarrow> float" where
  "fsub a b = fadd a (fneg b)"

text \<open>\<^verbatim>\<open>std::floor\<close> and \<^verbatim>\<open>std::ceil\<close>: a zero result keeps the sign of the argument.\<close>

fun ffloor :: "float \<Rightarrow> float" where
  "ffloor (Finite s m) =
     (let k = \<lfloor>fval (Finite s m)\<rfloor>
      in if k = 0 then Finite s 0 else Finite (k < 0) (of_int \<bar>k\<bar>))"
| "ffloor a = a"

fun fceil :: "float \<Rightarrow> float" where
  "fceil (Finite s m) =
     (let k = \<lceil>fval (Finite s m)\<rceil>
      in if k = 0 then Finite s 0 else Finite (k < 0) (of_int \<bar>k\<bar>))"
| "fceil a = a"

text \<open>\<^verbatim>\<open>a >= b\<close> and \<^verbatim>\<open>a < b\<close>: false whenever an operand is NaN.\<close>

definition f_ge :: "float \<Rightarrow> float \<Rightarrow> bool" where
  "f_ge a b =
     (if is_nan a \<or> is_nan b then False
      else if is_inf a then \<not> sign a \<or> (is_inf b \<and> sign b)
      else if is_inf b then sign b
      else fval b \<le> fval a)"

definition f_less :: "float \<Rightarrow> float \<Rightarrow> bool" where
  "f_less a b =
     (if is_nan a \<or> is_nan b then False
      else if is_inf a then sign a \<and> \<not> (is_inf b \<and> sign b)
      else if is_inf b then \<not> sign b
      else fval a < fval b)"

text \<open>
  The conversion of an \<^verbatim>\<open>int\<close> to \<^verbatim>\<open>float\<close> (\<^verbatim>\<open>static_cast<float>(n)\<close>, and the \<^verbatim>\<open>int\<close>
  operand of a product with a float), and \<^verbatim>\<open>static_cast<int>(v)\<close>: truncation toward
  zero, undefined for NaN, for the infinities and outside the range of \<^verbatim>\<open>int\<close> (32 bits).
\<close>

definition of_int32 :: "int \<Rightarrow> float" where
  "of_int32 n = fl (of_int n)"

definition static_cast_int :: "float \<Rightarrow> fault + int" where
  "static_cast_int v =
     (if is_nan v \<or> is_inf v then Inl BadCast
      else (let k = (if sign v then - \<lfloor>mag v\<rfloor> else \<lfloor>mag v\<rfloor>)
            in if - (2 ^ 31) \<le> k \<and> k < 2 ^ 31 then Inr k else Inl BadCast))"

text \<open>
  \<^verbatim>\<open>std::pow(static_cast<T>(10.0), k)\<close> with \<^verbatim>\<open>T = float\<close> and \<open>k\<close> an \<^verbatim>\<open>int\<close>, stored in
  the \<^verbatim>\<open>float\<close> \<open>d\<close>: the power of ten, rounded to binary32 (an infinity from \<open>10 ^ 39\<close> on).
\<close>

definition pow10 :: "int \<Rightarrow> float" where
  "pow10 k = fl (10 powi k)"

section \<open>Vector.hpp\<close>

text \<open>
  A \<^verbatim>\<open>Vector<T, N>\<close> is the list of its \<open>N\<close> elements. The binary operators work
  element by element (\<^verbatim>\<open>std::transform\<close> over both operands).
\<close>

definition vsub :: "float list \<Rightarrow> float list \<Rightarrow> float list" where
  "vsub a b = map2 fsub a b"

definition vmul :: "float list \<Rightarrow> float list \<Rightarrow> float list" where
  "vmul a b = map2 fmul a b"

definition vdiv :: "float list \<Rightarrow> float list \<Rightarrow> float list" where
  "vdiv a b = map2 fdiv a b"

text \<open>\<^verbatim>\<open>UFUNC(ceil)\<close>: \<^verbatim>\<open>std::ceil\<close> on every element.\<close>

definition vceil :: "float list \<Rightarrow> float list" where
  "vceil arg1 = map fceil arg1"

text \<open>
  \<^verbatim>\<open>round_off\<close>. The inner loop \<^verbatim>\<open>for (i = 0; tmp >= 1; ++i) tmp /= 10;\<close> with the
  current \<open>tmp\<close> and \<open>i\<close>; its value is the final \<open>i\<close>, and \<open>None\<close> when it never ends.
\<close>

partial_function (option) count_digits :: "float \<Rightarrow> int \<Rightarrow> int option" where
  "count_digits tmp i =
     (if f_ge tmp (fl 1) then count_digits (fdiv tmp (fl 10)) (i + 1) else Some i)"

text \<open>
  The body of the outer loop for one element \<open>num[j]\<close>: the digit count, the power of
  ten \<open>d\<close>, and \<^verbatim>\<open>std::floor(num[j] * d + static_cast<T>(0.5)) / d\<close>.
\<close>

definition round_off_elem :: "float \<Rightarrow> int \<Rightarrow> float option" where
  "round_off_elem v n =
     (case count_digits v 0 of
        None \<Rightarrow> None
      | Some i \<Rightarrow>
          (let d = pow10 (n - i)
           in Some (fdiv (ffloor (fadd (fmul v d) (fl (1 / 2)))) d)))"

text \<open>The outer loop writes every element \<open>j = 0, ..., N - 1\<close> of the copy \<open>num\<close>.\<close>

fun round_off :: "float list \<Rightarrow> int \<Rightarrow> float list option" where
  "round_off [] n = Some []"
| "round_off (v # vs) n =
     (case round_off_elem v n of
        None \<Rightarrow> None
      | Some r \<Rightarrow> (case round_off vs n of None \<Rightarrow> None | Some rs \<Rightarrow> Some (r # rs)))"

section \<open>Aesthetics, boxes and data frames\<close>

text \<open>
  These types are declared in headers that are not among the source files; what the
  code under study uses of them is modelled here.
\<close>

datatype aesthetic = X | Y | Color | Size

text \<open>
  Modelled from the spec: \<^verbatim>\<open>Aesthetic::x::index\<close> and its siblings (their header is
  absent), the position of a channel in a limits vector; the spec lists the channels as
  x, y, color, size.
\<close>

fun index :: "aesthetic \<Rightarrow> nat" where
  "index X = 0"
| "index Y = 1"
| "index Color = 2"
| "index Size = 3"

text \<open>
  Modelled from the spec: the box type \<^verbatim>\<open>bbox\<close> behind \<^verbatim>\<open>bfloat2_t\<close> and \<^verbatim>\<open>Limits\<close>
  (its header is absent): a lower and an upper corner, and \<^verbatim>\<open>delta()\<close>, their difference.
\<close>

record bbox =
  bmin :: "float list"
  bmax :: "float list"

definition delta :: "bbox \<Rightarrow> float list" where
  "delta b = vsub (bmax b) (bmin b)"

section \<open>Axis.cpp\<close>

record tick_info =
  x_val :: "float list"
  x_pos :: "float list"
  y_val :: "float list"
  y_pos :: "float list"

record axis =
  m_limits :: bbox
  m_pixels :: bbox
  m_sig_digits :: int
  m_nx_ticks :: int
  m_ny_ticks :: int
  m_tick_info :: tick_info

text \<open>\<^verbatim>\<open>Axis::calculate_num_ticks\<close>.\<close>

definition calculate_num_ticks :: "axis \<Rightarrow> float list" where
  "calculate_num_ticks a =
     (if m_nx_ticks a > 0 \<and> m_ny_ticks a > 0
      then [of_int32 (m_nx_ticks a), of_int32 (m_ny_ticks a)]
      else (let pix_ratio = fdiv (delta (m_pixels a) ! 0) (delta (m_pixels a) ! 1)
            in if m_nx_ticks a > 0
               then (let n = of_int32 (m_nx_ticks a) in [n, ffloor (fdiv n pix_ratio)])
               else if m_ny_ticks a > 0
               then (let n = of_int32 (m_ny_ticks a) in [ffloor (fmul n pix_ratio), n])
               else [ffloor (fmul (fl 5) pix_ratio), fl 5]))"

text \<open>
  One round of the loop \<^verbatim>\<open>for (int i = 0; i < 2; ++i)\<close> over the local box
  \<^verbatim>\<open>xy_limits\<close>, and the whole loop.
\<close>

definition default_if_empty :: "bbox \<Rightarrow> nat \<Rightarrow> bbox" where
  "default_if_empty xy_limits i =
     (if f_less (bmax xy_limits ! i) (bmin xy_limits ! i)
      then xy_limits\<lparr>bmin := (bmin xy_limits)[i := fl 0], bmax := (bmax xy_limits)[i := fl 1]\<rparr>
      else xy_limits)"

definition default_limits :: "bbox \<Rightarrow> bbox" where
  "default_limits xy_limits = foldl default_if_empty xy_limits [0, 1]"

text \<open>
  The local box \<^verbatim>\<open>xy_limits\<close> of \<^verbatim>\<open>Axis::update_tick_information\<close>: the x and y
  parts of \<^verbatim>\<open>m_limits\<close>, after the loop.
\<close>

definition xy_limits_of :: "axis \<Rightarrow> bbox" where
  "xy_limits_of a =
     default_limits
       \<lparr>bmin = [bmin (m_limits a) ! index X, bmin (m_limits a) ! index Y],
        bmax = [bmax (m_limits a) ! index X, bmax (m_limits a) ! index Y]\<rparr>"

text \<open>
  The final \<^verbatim>\<open>for\<close> statements of \<^verbatim>\<open>Axis::update_tick_information\<close>, for a tick count
  \<open>k\<close> already cast to \<^verbatim>\<open>int\<close>: \<open>i\<close> runs over \<open>0, ..., k - 1\<close>, is converted to \<^verbatim>\<open>float\<close> in
  its product, and \<open>first + i * step\<close> is appended (\<open>first - i * step\<close> for the y positions).
\<close>

definition tick_values :: "float \<Rightarrow> float \<Rightarrow> int \<Rightarrow> float list" where
  "tick_values first step k = map (\<lambda>i. fadd first (fmul (of_int32 i) step)) [0 .. k - 1]"

definition tick_positions_down :: "float \<Rightarrow> float \<Rightarrow> int \<Rightarrow> float list" where
  "tick_positions_down first step k = map (\<lambda>i. fsub first (fmul (of_int32 i) step)) [0 .. k - 1]"

text \<open>
  \<^verbatim>\<open>Axis::update_tick_information\<close>. The member template \<^verbatim>\<open>to_display\<close> is defined
  outside the source files: it is the parameter \<open>to_display\<close>. The result is \<open>None\<close> when
  \<^verbatim>\<open>round_off\<close> never returns, and the fault \<open>BadCast\<close> when a tick count cannot be cast.
\<close>

definition update_tick_information ::
  "(aesthetic \<Rightarrow> float \<Rightarrow> float) \<Rightarrow> axis \<Rightarrow> (fault + axis) option" where
  "update_tick_information to_display a =
     (let n_ticks = calculate_num_ticks a;
          xy_limits = xy_limits_of a
      in case round_off (vdiv (delta xy_limits) n_ticks) (m_sig_digits a) of
           None \<Rightarrow> None
         | Some tick_dx \<Rightarrow>
             (let tick_min = vmul (vceil (vdiv (bmin xy_limits) tick_dx)) tick_dx;
                  tick_dx_pixels = vdiv (vmul tick_dx (delta (m_pixels a))) (delta xy_limits);
                  tick_min_pixels = [to_display X (tick_min ! 0), to_display Y (tick_min ! 1)]
              in Some
                   (and_then (static_cast_int (n_ticks ! 0)) (\<lambda>kx.
                    and_then (static_cast_int (n_ticks ! 1)) (\<lambda>ky.
                      Inr (a\<lparr>m_tick_info :=
                             \<lparr>x_val = tick_values (tick_min ! 0) (tick_dx ! 0) kx,
                              x_pos = tick_values (tick_min_pixels ! 0) (tick_dx_pixels ! 0) kx,
                              y_val = tick_values (tick_min ! 1) (tick_dx ! 1) ky,
                              y_pos = tick_positions_down (tick_min_pixels ! 1)
                                        (tick_dx_pixels ! 1) ky\<rparr>\<rparr>))))))"

text \<open>
  What the spec says of the first tick: \<open>tick_min = ceil(min / spacing) * spacing\<close>.
\<close>

definition first_tick :: "float \<Rightarrow> float \<Rightarrow> float" where
  "first_tick lo spacing = fmul (fceil (fdiv lo spacing)) spacing"

text \<open>An axis state to evaluate the functions on: both limits \<open>[lo, hi]\<close>, a viewport of
  \<open>w\<close> by \<open>h\<close> pixels, two significant digits.\<close>

definition example_axis :: "real \<Rightarrow> real \<Rightarrow> int \<Rightarrow> int \<Rightarrow> real \<Rightarrow> real \<Rightarrow> axis" where
  "example_axis lo hi nx ny w h =
     \<lparr>m_limits = \<lparr>bmin = [fl lo, fl lo, fl 0, fl 0], bmax = [fl hi, fl hi, fl 1, fl 1]\<rparr>,
      m_pixels = \<lparr>bmin = [fl 0, fl 0], bmax = [fl w, fl h]\<rparr>,
      m_sig_digits = 2,
      m_nx_ticks = nx,
      m_ny_ticks = ny,
      m_tick_info = \<lparr>x_val = [], x_pos = [], y_val = [], y_pos = []\<rparr>\<rparr>"

section \<open>Points.tcc\<close>

text \<open>
  The values of the renderer (data values, pixel coordinates, weights and times) are
  reals, and its products and sums are exact: the properties of the renderer are about
  the frames it reads, the calls it makes, their order, and the formula that gives a
  drawn value from the data.
\<close>

text \<open>
  Modelled from the spec: \<^verbatim>\<open>DataWithAesthetic\<close> (its header is absent): a row count and,
  for every aesthetic the frame maps, a column of values. \<^verbatim>\<open>begin<T>()\<close> gives the
  iterator of a column and throws for an aesthetic that is absent; \<^verbatim>\<open>it[i]\<close> reads
  row \<open>i\<close> through the iterator.
\<close>

record data_with_aesthetic =
  rows :: nat
  column :: "aesthetic \<rightharpoonup> real list"

definition begin_aes :: "data_with_aesthetic \<Rightarrow> aesthetic \<Rightarrow> fault + real list" where
  "begin_aes d a = (case column d a of None \<Rightarrow> Inl MissingAesthetic | Some c \<Rightarrow> Inr c)"

definition iter_at :: "real list \<Rightarrow> nat \<Rightarrow> fault + real" where
  "iter_at it i = (if i < length it then Inr (it ! i) else Inl OutOfRange)"

text \<open>\<^verbatim>\<open>v[f]\<close> on a \<^verbatim>\<open>std::vector\<close>, with the index as the code has it (an \<^verbatim>\<open>int\<close>).\<close>

definition frame_at :: "'a list \<Rightarrow> int \<Rightarrow> fault + 'a" where
  "frame_at v f = (if 0 \<le> f \<and> f < int (length v) then Inr (v ! nat f) else Inl OutOfRange)"

text \<open>
  The operators \<^verbatim>\<open>a + b\<close> and \<^verbatim>\<open>k * b\<close> of \<^verbatim>\<open>Vector.hpp\<close> on the pixel vectors of the
  renderer.
\<close>

definition vadd :: "real list \<Rightarrow> real list \<Rightarrow> real list" where
  "vadd a b = map2 (+) a b"

definition smul :: "real \<Rightarrow> real list \<Rightarrow> real list" where
  "smul k b = map (\<lambda>v. k * v) b"

record frame_info =
  frame_above :: int
  w1 :: real
  w2 :: real

record points =
  m_data :: "data_with_aesthetic list"
  m_times :: "real list"
  m_frame_info :: frame_info

text \<open>
  The backend is the sequence of calls it receives; \<open>'c\<close> is the colour type of the
  colormap. A position \<^verbatim>\<open>{p[0], p[1]}\<close> is a two-element vector.

  A run of a drawing function is the list of the backend calls it has made, in order,
  and the fault that ended it, if one did: \<open>OutOfRange\<close> when an element outside a
  container was indexed (\<^verbatim>\<open>m_data[f]\<close> with no frame \<open>f\<close>, an iterator moved past its
  column; undefined behaviour in C++), \<open>MissingAesthetic\<close> when \<^verbatim>\<open>begin<T>()\<close> threw for
  an absent aesthetic and nothing caught the \<^verbatim>\<open>Exception\<close>. The calls listed with a
  fault are those made before it. \<open>reading\<close> is a read that may fault, followed by the
  rest of the function; \<open>calls\<close> is a sequence of backend calls followed by the rest;
  \<open>then_run\<close> is one statement after another; \<open>for_each\<close> is a \<^verbatim>\<open>for\<close> loop over the
  values of its counter.
\<close>

datatype 'c backend_call =
    StrokeWidth real
  | FillColor 'c
  | Circle "real list" real
  | AddAnimatedCircle "real list" real real
  | EndAnimatedCircle

type_synonym 'c run = "'c backend_call list \<times> fault option"

definition reading :: "fault + 'a \<Rightarrow> ('a \<Rightarrow> 'c run) \<Rightarrow> 'c run" where
  "reading m k = (case m of Inl e \<Rightarrow> ([], Some e) | Inr v \<Rightarrow> k v)"

definition calls :: "'c backend_call list \<Rightarrow> 'c run \<Rightarrow> 'c run" where
  "calls cs r = (cs @ fst r, snd r)"

definition then_run :: "'c run \<Rightarrow> 'c run \<Rightarrow> 'c run" where
  "then_run r k = (case snd r of None \<Rightarrow> calls (fst r) k | Some e \<Rightarrow> r)"

fun for_each :: "('a \<Rightarrow> 'c run) \<Rightarrow> 'a list \<Rightarrow> 'c run" where
  "for_each body [] = ([], None)"
| "for_each body (x # xs) = then_run (body x) (for_each body xs)"

text \<open>\<^verbatim>\<open>check_aesthetic<T>\<close>: try \<^verbatim>\<open>data.begin<T>()\<close>, catch the exception.\<close>

definition check_aesthetic :: "data_with_aesthetic \<Rightarrow> aesthetic \<Rightarrow> bool" where
  "check_aesthetic d a = (case begin_aes d a of Inl e \<Rightarrow> False | Inr it \<Rightarrow> True)"

text \<open>
  The lambda \<^verbatim>\<open>to_pixel\<close> of \<^verbatim>\<open>draw_frames\<close> and of \<^verbatim>\<open>draw_plot\<close> (the same text in
  both), with the captured \<^verbatim>\<open>have_color\<close>, \<^verbatim>\<open>have_size\<close> and the axis transform
  \<^verbatim>\<open>m_axis->to_display<T>\<close> as arguments.
\<close>

definition to_pixel ::
  "(aesthetic \<Rightarrow> real \<Rightarrow> real) \<Rightarrow> bool \<Rightarrow> bool \<Rightarrow> real \<Rightarrow> real \<Rightarrow> real \<Rightarrow> real \<Rightarrow> real list" where
  "to_pixel to_display have_color have_size x y c s =
     [to_display X x,
      to_display Y y,
      if have_color then to_display Color c else 0,
      if have_size then to_display Size s else 1]"

text \<open>
  \<^verbatim>\<open>Points::draw_frames\<close>. \<open>to_display\<close> is the axis transform and \<open>to_color\<close> the
  colormap, both defined outside the source files. First the body of the inner loop, for
  row \<open>i\<close> and frame \<open>f\<close>: the four values are read, then \<^verbatim>\<open>fill_color\<close> and
  \<^verbatim>\<open>add_animated_circle\<close> are called. Then the body of the outer loop, for row \<open>i\<close>, which
  ends with \<^verbatim>\<open>end_animated_circle\<close>. Then the function: the aesthetics are probed on
  \<^verbatim>\<open>m_data[0]\<close>, \<^verbatim>\<open>stroke_width(0)\<close> is called, and the rows are drawn.
\<close>

definition draw_frames_keyframe ::
  "(aesthetic \<Rightarrow> real \<Rightarrow> real) \<Rightarrow> (real \<Rightarrow> 'c) \<Rightarrow> points \<Rightarrow> bool \<Rightarrow> bool \<Rightarrow> nat \<Rightarrow> nat \<Rightarrow> 'c run" where
  "draw_frames_keyframe to_display to_color pts have_color have_size i f =
     reading (frame_at (m_data pts) (int f)) (\<lambda>d.
     reading (and_then (begin_aes d X) (\<lambda>it. iter_at it i)) (\<lambda>x.
     reading (and_then (begin_aes d Y) (\<lambda>it. iter_at it i)) (\<lambda>y.
     reading (if have_color
              then and_then (begin_aes d Color) (\<lambda>it. iter_at it i)
              else Inr 0) (\<lambda>c.
     reading (if have_size
              then and_then (begin_aes d Size) (\<lambda>it. iter_at it i)
              else Inr 0) (\<lambda>s.
     let p = to_pixel to_display have_color have_size x y c s
     in ([FillColor (to_color (p ! 2)),
          AddAnimatedCircle [p ! 0, p ! 1] (p ! 3) (m_times pts ! f)], None))))))"

definition draw_frames_row ::
  "(aesthetic \<Rightarrow> real \<Rightarrow> real) \<Rightarrow> (real \<Rightarrow> 'c) \<Rightarrow> points \<Rightarrow> bool \<Rightarrow> bool \<Rightarrow> nat \<Rightarrow> 'c run" where
  "draw_frames_row to_display to_color pts have_color have_size i =
     then_run
       (for_each (draw_frames_keyframe to_display to_color pts have_color have_size i)
          [0 ..< length (m_times pts)])
       ([EndAnimatedCircle], None)"

definition draw_frames ::
  "(aesthetic \<Rightarrow> real \<Rightarrow> real) \<Rightarrow> (real \<Rightarrow> 'c) \<Rightarrow> points \<Rightarrow> 'c run" where
  "draw_frames to_display to_color pts =
     reading (frame_at (m_data pts) 0) (\<lambda>d0.
     let have_color = check_aesthetic d0 Color;
         have_size = check_aesthetic d0 Size
     in calls [StrokeWidth 0]
          (for_each (draw_frames_row to_display to_color pts have_color have_size)
             [0 ..< rows d0]))"

text \<open>
  \<^verbatim>\<open>Points::draw_plot\<close>. Where an aesthetic is absent the code takes the iterator of
  \<open>x\<close> in its place (``a dummy iterator, not used''). First the body of the loop of the
  branch \<^verbatim>\<open>w2 == 0.0f\<close>, then the body of the loop of the other branch, each for row
  \<open>i\<close>; then the function: the aesthetics are probed on \<^verbatim>\<open>m_data[f]\<close>,
  \<^verbatim>\<open>stroke_width(0)\<close> is called, the iterators are taken (those of \<^verbatim>\<open>m_data[f - 1]\<close>
  first in the second branch), and the rows are drawn, as many as \<^verbatim>\<open>m_data[0]\<close> has.
\<close>

definition draw_plot_single ::
  "(aesthetic \<Rightarrow> real \<Rightarrow> real) \<Rightarrow> (real \<Rightarrow> 'c) \<Rightarrow> bool \<Rightarrow> bool \<Rightarrow>
     real list \<Rightarrow> real list \<Rightarrow> real list \<Rightarrow> real list \<Rightarrow> nat \<Rightarrow> 'c run" where
  "draw_plot_single to_display to_color have_color have_size x y color_it size_it i =
     reading (iter_at x i) (\<lambda>xi.
     reading (iter_at y i) (\<lambda>yi.
     reading (iter_at color_it i) (\<lambda>ci.
     reading (iter_at size_it i) (\<lambda>si.
     let p = to_pixel to_display have_color have_size xi yi ci si
     in ([FillColor (to_color (p ! 2)), Circle [p ! 0, p ! 1] (p ! 3)], None)))))"

definition draw_plot_between ::
  "(aesthetic \<Rightarrow> real \<Rightarrow> real) \<Rightarrow> (real \<Rightarrow> 'c) \<Rightarrow> bool \<Rightarrow> bool \<Rightarrow> real \<Rightarrow> real \<Rightarrow>
     real list \<Rightarrow> real list \<Rightarrow> real list \<Rightarrow> real list \<Rightarrow>
     real list \<Rightarrow> real list \<Rightarrow> real list \<Rightarrow> real list \<Rightarrow> nat \<Rightarrow> 'c run" where
  "draw_plot_between to_display to_color have_color have_size weight1 weight2
       x1 y1 color1 size1 x0 y0 color0 size0 i =
     reading (iter_at x1 i) (\<lambda>x1i.
     reading (iter_at y1 i) (\<lambda>y1i.
     reading (iter_at color1 i) (\<lambda>c1i.
     reading (iter_at size1 i) (\<lambda>s1i.
     reading (iter_at x0 i) (\<lambda>x0i.
     reading (iter_at y0 i) (\<lambda>y0i.
     reading (iter_at color0 i) (\<lambda>c0i.
     reading (iter_at size0 i) (\<lambda>s0i.
     let p = vadd (smul weight1 (to_pixel to_display have_color have_size x1i y1i c1i s1i))
                  (smul weight2 (to_pixel to_display have_color have_size x0i y0i c0i s0i))
     in ([FillColor (to_color (p ! 2)), Circle [p ! 0, p ! 1] (p ! 3)], None)))))))))"

definition draw_plot ::
  "(aesthetic \<Rightarrow> real \<Rightarrow> real) \<Rightarrow> (real \<Rightarrow> 'c) \<Rightarrow> points \<Rightarrow> 'c run" where
  "draw_plot to_display to_color pts =
     (let f = frame_above (m_frame_info pts);
          w1 = w1 (m_frame_info pts);
          w2 = w2 (m_frame_info pts)
      in reading (frame_at (m_data pts) f) (\<lambda>df.
      let have_color = check_aesthetic df Color;
          have_size = check_aesthetic df Size
      in
      calls [StrokeWidth 0]
        (if w2 = 0 then
           reading (begin_aes df X) (\<lambda>x.
           reading (begin_aes df Y) (\<lambda>y.
           reading (if have_color then begin_aes df Color else Inr x) (\<lambda>color.
           reading (if have_size then begin_aes df Size else Inr x) (\<lambda>size.
           reading (frame_at (m_data pts) 0) (\<lambda>d0.
             for_each (draw_plot_single to_display to_color have_color have_size x y color size)
               [0 ..< rows d0])))))
         else
           reading (frame_at (m_data pts) (f - 1)) (\<lambda>dp.
           reading (begin_aes dp X) (\<lambda>x0.
           reading (begin_aes dp Y) (\<lambda>y0.
           reading (if have_color then begin_aes dp Color else Inr x0) (\<lambda>color0.
           reading (if have_size then begin_aes dp Size else Inr x0) (\<lambda>size0.
           reading (begin_aes df X) (\<lambda>x1.
           reading (begin_aes df Y) (\<lambda>y1.
           reading (if have_color then begin_aes df Color else Inr x1) (\<lambda>color1.
           reading (if have_size then begin_aes df Size else Inr x1) (\<lambda>size1.
           reading (frame_at (m_data pts) 0) (\<lambda>d0.
             for_each (draw_plot_between to_display to_color have_color have_size w1 w2
                         x1 y1 color1 size1 x0 y0 color0 size0)
               [0 ..< rows d0])))))))))))))"

text \<open>
  Modelled from the spec: \<^verbatim>\<open>update_frame_info\<close>, which \<^verbatim>\<open>Points::draw\<close> calls and no
  source file defines. The spec: \<^verbatim>\<open>frameAbove\<close> is the index of the earliest registered
  frame with timestamp \<open>\<ge> t\<close>, or the last frame if \<open>t\<close> exceeds all timestamps; \<open>w1\<close> and
  \<open>w2\<close>, with \<open>w1 + w2 = 1\<close>, are the linear blend weights toward \<^verbatim>\<open>frameAbove\<close> and
  \<^verbatim>\<open>frameAbove - 1\<close>; a time before the first or after the last timestamp resolves to the
  endpoint frame with \<open>w2 = 0\<close>.
\<close>

fun first_at_or_above :: "real list \<Rightarrow> real \<Rightarrow> nat" where
  "first_at_or_above [] t = 0"
| "first_at_or_above (x # xs) t = (if t \<le> x then 0 else Suc (first_at_or_above xs t))"

definition update_frame_info :: "points \<Rightarrow> real \<Rightarrow> points" where
  "update_frame_info pts t =
     (let ts = m_times pts;
          k = first_at_or_above ts t
      in if k = length ts
         then pts\<lparr>m_frame_info := \<lparr>frame_above = int (length ts) - 1, w1 = 1, w2 = 0\<rparr>\<rparr>
         else if k = 0
         then pts\<lparr>m_frame_info := \<lparr>frame_above = 0, w1 = 1, w2 = 0\<rparr>\<rparr>
         else (let w = (t - ts ! (k - 1)) / (ts ! k - ts ! (k - 1))
               in pts\<lparr>m_frame_info := \<lparr>frame_above = int k, w1 = w, w2 = 1 - w\<rparr>\<rparr>))"

text \<open>
  The two overloads of \<^verbatim>\<open>Points::draw\<close>: with an animated backend, and with a backend
  and a time.
\<close>

definition draw_animated ::
  "(aesthetic \<Rightarrow> real \<Rightarrow> real) \<Rightarrow> (real \<Rightarrow> 'c) \<Rightarrow> points \<Rightarrow> 'c run" where
  "draw_animated to_display to_color pts = draw_frames to_display to_color pts"

definition draw ::
  "(aesthetic \<Rightarrow> real \<Rightarrow> real) \<Rightarrow> (real \<Rightarrow> 'c) \<Rightarrow> points \<Rightarrow> real \<Rightarrow> 'c run" where
  "draw to_display to_color pts time = draw_plot to_display to_color (update_frame_info pts time)"

section \<open>What the spec says of a drawn row\<close>

text \<open>
  The spec speaks of the pixel-space vector of a row of a frame: the axis transform of
  its x and y values, of its colour value and of its size value. The presence of colour
  and size is probed once, on one frame of the series: where the probed frame has the
  aesthetic, the value of the row is transformed; where it has not, the vector holds the
  default, 0 for colour and 1 for size. \<open>row_pixel\<close> is the vector of a row of the probed
  frame itself.
\<close>

definition probed_pixel ::
  "(aesthetic \<Rightarrow> real \<Rightarrow> real) \<Rightarrow> data_with_aesthetic \<Rightarrow> data_with_aesthetic \<Rightarrow> nat \<Rightarrow> real list" where
  "probed_pixel to_display probe d i =
     [case column d X of None \<Rightarrow> 0 | Some c \<Rightarrow> to_display X (c ! i),
      case column d Y of None \<Rightarrow> 0 | Some c \<Rightarrow> to_display Y (c ! i),
      case column probe Color of
        None \<Rightarrow> 0
      | Some u \<Rightarrow> (case column d Color of None \<Rightarrow> 0 | Some c \<Rightarrow> to_display Color (c ! i)),
      case column probe Size of
        None \<Rightarrow> 1
      | Some u \<Rightarrow> (case column d Size of None \<Rightarrow> 1 | Some c \<Rightarrow> to_display Size (c ! i))]"

definition row_pixel :: "(aesthetic \<Rightarrow> real \<Rightarrow> real) \<Rightarrow> data_with_aesthetic \<Rightarrow> nat \<Rightarrow> real list" where
  "row_pixel to_display d i =
     [case column d X of None \<Rightarrow> 0 | Some c \<Rightarrow> to_display X (c ! i),
      case column d Y of None \<Rightarrow> 0 | Some c \<Rightarrow> to_display Y (c ! i),
      case column d Color of None \<Rightarrow> 0 | Some c \<Rightarrow> to_display Color (c ! i),
      case column d Size of None \<Rightarrow> 1 | Some c \<Rightarrow> to_display Size (c ! i)]"

text \<open>
  The weighted sum of the rows \<open>i\<close> of two frames, the primitive drawn at a vector, and
  the keyframe of an animated circle at a vector and a time.
\<close>

definition blended_row ::
  "(aesthetic \<Rightarrow> real \<Rightarrow> real) \<Rightarrow> real \<Rightarrow> real \<Rightarrow> data_with_aesthetic \<Rightarrow> data_with_aesthetic \<Rightarrow>
     nat \<Rightarrow> real list" where
  "blended_row to_display wa wb d_above d_below i =
     vadd (smul wa (row_pixel to_display d_above i)) (smul wb (row_pixel to_display d_below i))"

definition circle_at :: "(real \<Rightarrow> 'c) \<Rightarrow> real list \<Rightarrow> 'c backend_call list" where
  "circle_at to_color p = [FillColor (to_color (p ! 2)), Circle [p ! 0, p ! 1] (p ! 3)]"

definition keyframe_at :: "(real \<Rightarrow> 'c) \<Rightarrow> real list \<Rightarrow> real \<Rightarrow> 'c backend_call list" where
  "keyframe_at to_color p t =
     [FillColor (to_color (p ! 2)), AddAnimatedCircle [p ! 0, p ! 1] (p ! 3) t]"

text \<open>
  A frame is complete for \<open>n\<close> rows when it has the x and y columns and every column it
  has holds at least \<open>n\<close> values. Two frames have the same aesthetics when they agree on
  having colour and on having size. A frame follows a probed frame for \<open>n\<close> rows when it
  has the x and y columns, and the colour and size columns that the probed frame has,
  each with at least \<open>n\<close> values.
\<close>

definition has_column :: "nat \<Rightarrow> data_with_aesthetic \<Rightarrow> aesthetic \<Rightarrow> bool" where
  "has_column n d a = (case column d a of None \<Rightarrow> False | Some c \<Rightarrow> n \<le> length c)"

definition fits_column :: "nat \<Rightarrow> data_with_aesthetic \<Rightarrow> aesthetic \<Rightarrow> bool" where
  "fits_column n d a = (case column d a of None \<Rightarrow> True | Some c \<Rightarrow> n \<le> length c)"

definition frame_complete :: "nat \<Rightarrow> data_with_aesthetic \<Rightarrow> bool" where
  "frame_complete n d \<longleftrightarrow>
     has_column n d X \<and> has_column n d Y \<and> fits_column n d Color \<and> fits_column n d Size"

definition same_aesthetics :: "data_with_aesthetic \<Rightarrow> data_with_aesthetic \<Rightarrow> bool" where
  "same_aesthetics d d' \<longleftrightarrow>
     (column d Color = None \<longleftrightarrow> column d' Color = None) \<and>
     (column d Size = None \<longleftrightarrow> column d' Size = None)"

definition follows :: "nat \<Rightarrow> data_with_aesthetic \<Rightarrow> data_with_aesthetic \<Rightarrow> bool" where
  "follows n probe d \<longleftrightarrow>
     has_column n d X \<and> has_column n d Y \<and>
     (column probe Color = None \<or> has_column n d Color) \<and>
     (column probe Size = None \<or> has_column n d Size)"

section \<open>Series to evaluate the functions on\<close>

text \<open>A frame with x and y columns only, one with all four, and a series of frames.\<close>

definition xy_frame :: "real list \<Rightarrow> real list \<Rightarrow> data_with_aesthetic" where
  "xy_frame xs ys = \<lparr>rows = length xs, column = [X \<mapsto> xs, Y \<mapsto> ys]\<rparr>"

definition full_frame :: "real list \<Rightarrow> real list \<Rightarrow> real list \<Rightarrow> real list \<Rightarrow> data_with_aesthetic" where
  "full_frame xs ys cs ss =
     \<lparr>rows = length xs, column = [X \<mapsto> xs, Y \<mapsto> ys, Color \<mapsto> cs, Size \<mapsto> ss]\<rparr>"

definition series :: "data_with_aesthetic list \<Rightarrow> real list \<Rightarrow> points" where
  "series ds ts = \<lparr>m_data = ds, m_times = ts, m_frame_info = \<lparr>frame_above = 0, w1 = 1, w2 = 0\<rparr>\<rparr>"

section \<open>Properties of the binary32 arithmetic\<close>

text \<open>The equations that evaluate the arithmetic on given numbers.\<close>

lemmas fl_eval = fl_def to_float_def round_mag_def ilog2_def ilog_up.simps ilog_down.simps
  round_even_def Let_def power_int_minus
lemmas op_eval = fmul_def fdiv_def fadd_def fsub_def is_zero_def is_finite_def fval_def f_ge_def f_less_def
  of_int32_def pow10_def static_cast_int_def

lemma pow2_step: "(2::real) powi (k + 1) = 2 * 2 powi k"
  by (simp add: power_int_add)

lemma pow2_pred: "(2::real) powi (k - 1) = 2 powi k / 2"
  by (simp add: power_int_diff)

lemma ilog_up_bounds:
  "1 \<le> x \<Longrightarrow> 2 powi (ilog_up x) \<le> x \<and> x < 2 powi (ilog_up x + 1)"
proof (induction x rule: ilog_up.induct)
  case (1 x)
  show ?case
  proof (cases "2 \<le> x")
    case True
    then have "1 \<le> x / 2" by simp
    with 1 True have "2 powi (ilog_up (x / 2)) \<le> x / 2 \<and> x / 2 < 2 powi (ilog_up (x / 2) + 1)"
      by blast
    then have "2 * 2 powi (ilog_up (x / 2)) \<le> x" "x < 2 * (2 * 2 powi (ilog_up (x / 2)))"
      by (simp_all add: pow2_step)
    moreover from True have "ilog_up x = ilog_up (x / 2) + 1"
      by (subst ilog_up.simps) simp
    ultimately show ?thesis
      by (simp only: pow2_step)
  next
    case False
    then have "ilog_up x = 0" by (subst ilog_up.simps) simp
    with False 1 show ?thesis by simp
  qed
qed

lemma ilog_down_bounds:
  "0 < x \<Longrightarrow> x < 1 \<Longrightarrow> 2 powi (ilog_down x) \<le> x \<and> x < 2 powi (ilog_down x + 1)"
proof (induction x rule: ilog_down.induct)
  case (1 x)
  from 1(2,3) have eq: "ilog_down x = ilog_down (x * 2) - 1"
    by (subst ilog_down.simps) simp
  show ?case
  proof (cases "x * 2 < 1")
    case True
    with 1 have "2 powi (ilog_down (x * 2)) \<le> x * 2 \<and> x * 2 < 2 powi (ilog_down (x * 2) + 1)"
      by simp
    then show ?thesis
      unfolding eq by (simp add: pow2_step pow2_pred)
  next
    case False
    then have "ilog_down (x * 2) = 0" by (subst ilog_down.simps) simp
    with False 1(2,3) show ?thesis
      unfolding eq by (simp add: power_int_minus)
  qed
qed

lemma ilog2_bounds:
  "0 < x \<Longrightarrow> 2 powi (ilog2 x) \<le> x \<and> x < 2 powi (ilog2 x + 1)"
  using ilog_up_bounds [of x] ilog_down_bounds [of x]
  by (cases "1 \<le> x") (simp_all add: ilog2_def)

lemma ilog2_ge:
  assumes "2 powi k \<le> x"
  shows "k \<le> ilog2 x"
proof (rule ccontr)
  assume "\<not> k \<le> ilog2 x"
  then have "ilog2 x + 1 \<le> k" by simp
  then have "(2::real) powi (ilog2 x + 1) \<le> 2 powi k"
    by (intro power_int_increasing) simp_all
  moreover have "(0::real) < 2 powi k" by simp
  then have "0 < x" using assms by linarith
  ultimately show False using ilog2_bounds [of x] assms by simp
qed

lemma ilog2_less:
  assumes "0 < x" "x < 2 powi k"
  shows "ilog2 x < k"
proof (rule ccontr)
  assume "\<not> ilog2 x < k"
  then have "(2::real) powi k \<le> 2 powi ilog2 x"
    by (intro power_int_increasing) simp_all
  then show False using ilog2_bounds [of x] assms by simp
qed


lemma round_even_of_int [simp]: "round_even (of_int k) = k"
  by (simp add: round_even_def)

lemma round_even_nonneg: "0 \<le> q \<Longrightarrow> 0 \<le> round_even q"
  unfolding round_even_def Let_def by (auto; linarith)

lemma round_mag_nonneg: "0 \<le> m \<Longrightarrow> 0 \<le> round_mag m"
  unfolding round_mag_def Let_def
  by (intro mult_nonneg_nonneg) (simp_all add: round_even_nonneg)


lemma fl_1 [simp]: "fl 1 = Finite False 1"
  by (simp add: fl_eval)

lemma fl_10 [simp]: "fl 10 = Finite False 10"
  by (simp add: fl_eval)

lemma fl_0 [simp]: "fl 0 = Finite False 0"
  by (simp add: fl_def to_float_def round_mag_def round_even_def)

lemma mag_nonneg [simp]: "0 \<le> mag a"
  by (cases a) simp_all

lemma mag_to_float: "0 \<le> m \<Longrightarrow> mag (to_float s m) < 2 ^ 128"
  using round_mag_nonneg [of m] by (simp add: to_float_def Let_def)


lemma mag_fadd: "mag (fadd a b) < 2 ^ 128"
  using mag_to_float [of "\<bar>fval a + fval b\<bar>" "fval a + fval b < 0"]
  by (simp add: fadd_def Let_def)

lemma mag_fsub: "mag (fsub a b) < 2 ^ 128"
  unfolding fsub_def by (rule mag_fadd)









section \<open>Properties of \<^verbatim>\<open>round_off\<close>\<close>

text \<open>
  C1. \<^verbatim>\<open>round_off\<close> takes 1234.5 to 1200 at \<open>n = 2\<close>: four digits are counted left of the
  decimal point and the element is rounded half up at the precision \<open>10 ^ (2 - 4)\<close>. It
  takes the float 0.01234 to the float 0.01, and not to 0.012, the value with two
  significant digits: below 1 no digit is counted, and the element keeps \<open>n\<close> digits after
  the decimal point.
\<close>

theorem round_off_examples:
  "round_off [fl (12345 / 10)] 2 = Some [fl 1200] \<and>
   round_off [fl (1234 / 100000)] 2 = Some [fl (1 / 100)] \<and>
   round_off [fl (1234 / 100000)] 2 \<noteq> Some [fl (12 / 1000)]"
  by (simp add: round_off_elem_def count_digits.simps fl_eval op_eval)

text \<open>
  C9. \<^verbatim>\<open>round_off\<close> is not idempotent. At \<open>n = 1\<close> it takes 950 to 1000, and 1000 to the
  float 999.99994 below it: four digits are counted, the power of ten \<open>10 ^ (1 - 4)\<close> is the
  float next to 0.001, which lies above 0.001, and the quotient of 1 by it rounds to the
  float below 1000. So 1000, which has one significant digit, is not kept.
\<close>

theorem round_off_not_idempotent:
  "round_off [fl 950] 1 = Some [fl 1000] \<and>
   round_off [fl 1000] 1 = Some [fl (99999994 / 100000)] \<and>
   fl (99999994 / 100000) \<noteq> fl 1000"
  by (simp add: round_off_elem_def count_digits.simps fl_eval op_eval)





section \<open>Properties of the tick layout\<close>

lemma round_mag_int:
  assumes "0 \<le> k" "k < 2 ^ 24"
  shows "round_mag (of_int k) = of_int k"
proof (cases "k = 0")
  case True
  then show ?thesis by (simp add: round_mag_def Let_def round_even_def)
next
  case False
  define x :: real where "x = of_int k"
  from False assms have x1: "1 \<le> x" by (simp add: x_def)
  then have pos: "0 < x" by simp
  have "(2::real) powi 0 \<le> x" using x1 by simp
  then have e0: "0 \<le> ilog2 x" by (rule ilog2_ge)
  have "x < 2 ^ 24" using assms(2) unfolding x_def by (metis of_int_less_iff of_int_numeral of_int_power)
  then have "x < 2 powi 24" by simp
  with pos have e24: "ilog2 x < 24" by (rule ilog2_less)
  define j where "j = nat (23 - ilog2 x)"
  have u: "(2::real) powi (ilog2 x - 23) = 1 / 2 ^ j"
    using e24 by (simp add: j_def power_int_def field_simps)
  have "x / (1 / 2 ^ j) = of_int (k * 2 ^ j)" by (simp add: x_def)
  then have "round_even (x / (1 / 2 ^ j)) = k * 2 ^ j"
    by (simp only: round_even_of_int)
  then have "of_int (round_even (x / (1 / 2 ^ j))) * (1 / 2 ^ j) = x"
    by (simp add: x_def)
  with e0 u show ?thesis
    by (simp add: round_mag_def Let_def x_def [symmetric])
qed

lemma of_int32_exact: "0 \<le> k \<Longrightarrow> k < 2 ^ 24 \<Longrightarrow> of_int32 k = Finite False (of_int k)"
proof -
  assume a: "0 \<le> k" "k < 2 ^ 24"
  then have "round_mag (of_int k) = of_int k" by (rule round_mag_int)
  moreover have "(of_int k :: real) < 2 ^ 128"
  proof -
    have "(of_int k :: real) < of_int (2 ^ 24)" using a(2) by (simp only: of_int_less_iff)
    then show ?thesis by simp
  qed
  ultimately show ?thesis using a(1) by (simp add: of_int32_def fl_def to_float_def)
qed

lemma fl_5 [simp]: "fl 5 = Finite False 5"
  by (simp add: fl_eval)

lemma fdiv_same_value:
  assumes "is_finite w" "is_finite h" "mag h \<noteq> 0" "fval w = c * fval h" "0 < c"
  shows "fdiv w h = to_float False c"
proof -
  have mh: "0 < mag h" using assms(3) mag_nonneg [of h] by linarith
  have sg: "sign w = sign h"
  proof (rule ccontr)
    assume "sign w \<noteq> sign h"
    with assms(4) have "mag w = - c * mag h \<or> - mag w = c * mag h"
      by (auto simp add: fval_def split: if_splits)
    moreover have "0 < c * mag h" using mh assms(5) by simp
    ultimately show False using mag_nonneg [of w] by auto
  qed
  with assms(4) have "mag w = c * mag h"
    by (auto simp add: fval_def split: if_splits)
  then have "mag w / mag h = c" using mh by simp
  with assms(1,2,3) sg show ?thesis
    by (simp add: fdiv_def is_finite_def is_zero_def)
qed

text \<open>
  C7, as stated: with only x requested the pair is \<open>(x, floor (x / r))\<close> for the ratio \<open>r\<close> of
  the width to the height, and with no requested counts a square viewport gives
  \<open>(5, 5)\<close>. With one x tick requested on a viewport of 100 by 700 pixels the result is
  \<open>(1, 6)\<close>, where \<open>floor (1 / (100 / 700))\<close> is 7: the ratio is rounded to a float above
  \<open>1 / 7\<close>, and the quotient of 1 by it to a float below 7. On a viewport of 0 by 0 pixels,
  which is square, the ratio is NaN and the result \<open>(NaN, 5)\<close>. And the requested count
  16777217 is returned as 16777216, the nearest float.
\<close>

theorem calculate_num_ticks_counterexample:
  "calculate_num_ticks (example_axis 0 10 1 0 100 700) = [fl 1, fl 6] \<and>
   \<lfloor>1 / (100 / 700 :: real)\<rfloor> = 7 \<and>
   calculate_num_ticks (example_axis 0 10 0 0 0 0) = [NaN, fl 5] \<and>
   calculate_num_ticks (example_axis 0 10 16777217 1 100 100) = [fl 16777216, fl 1]"
  by (simp add: calculate_num_ticks_def example_axis_def delta_def vsub_def fl_eval op_eval)

text \<open>
  C7, amended. \<^verbatim>\<open>calculate_num_ticks\<close> returns the requested pair, converted to
  \<^verbatim>\<open>float\<close>, when both counts are requested (\<open>> 0\<close>), and the conversion is exact for counts
  below \<open>2 ^ 24\<close>; \<open>(x, floor (x / r))\<close> when only x is requested; \<open>(floor (y * r), y)\<close> when
  only y is; \<open>(floor (5 * r), 5)\<close> when neither is, where \<open>r\<close> is the binary32 quotient of the
  width of the viewport by its height, and the quotient \<open>x / r\<close> and the products \<open>y * r\<close> and
  \<open>5 * r\<close> are binary32 operations, rounded before the floor is taken. With no requested
  counts and a finite height other than zero, that is \<open>(5, 5)\<close> for a square viewport and
  \<open>(10, 5)\<close> for one twice as wide as high.
\<close>

theorem calculate_num_ticks_cases:
  assumes r: "r = fdiv (delta (m_pixels a) ! 0) (delta (m_pixels a) ! 1)"
  shows "(0 < m_nx_ticks a \<and> 0 < m_ny_ticks a \<longrightarrow>
            calculate_num_ticks a = [of_int32 (m_nx_ticks a), of_int32 (m_ny_ticks a)]) \<and>
         (0 < m_nx_ticks a \<and> \<not> 0 < m_ny_ticks a \<longrightarrow>
            calculate_num_ticks a =
              [of_int32 (m_nx_ticks a), ffloor (fdiv (of_int32 (m_nx_ticks a)) r)]) \<and>
         (\<not> 0 < m_nx_ticks a \<and> 0 < m_ny_ticks a \<longrightarrow>
            calculate_num_ticks a =
              [ffloor (fmul (of_int32 (m_ny_ticks a)) r), of_int32 (m_ny_ticks a)]) \<and>
         (\<not> 0 < m_nx_ticks a \<and> \<not> 0 < m_ny_ticks a \<longrightarrow>
            calculate_num_ticks a = [ffloor (fmul (fl 5) r), fl 5]) \<and>
         (\<forall>k. 0 \<le> k \<and> k < 2 ^ 24 \<longrightarrow> of_int32 k = Finite False (of_int k)) \<and>
         (\<not> 0 < m_nx_ticks a \<and> \<not> 0 < m_ny_ticks a \<and>
          is_finite (delta (m_pixels a) ! 0) \<and> is_finite (delta (m_pixels a) ! 1) \<and>
          \<not> is_zero (delta (m_pixels a) ! 1) \<and>
          fval (delta (m_pixels a) ! 0) = fval (delta (m_pixels a) ! 1) \<longrightarrow>
            calculate_num_ticks a = [fl 5, fl 5]) \<and>
         (\<not> 0 < m_nx_ticks a \<and> \<not> 0 < m_ny_ticks a \<and>
          is_finite (delta (m_pixels a) ! 0) \<and> is_finite (delta (m_pixels a) ! 1) \<and>
          \<not> is_zero (delta (m_pixels a) ! 1) \<and>
          fval (delta (m_pixels a) ! 0) = 2 * fval (delta (m_pixels a) ! 1) \<longrightarrow>
            calculate_num_ticks a = [fl 10, fl 5])"
proof -
  have square: "fdiv w h = Finite False 1"
    if "is_finite w" "is_finite h" "\<not> is_zero h" "fval w = fval h" for w h
  proof -
    from that have "fdiv w h = to_float False 1"
      by (intro fdiv_same_value) (simp_all add: is_zero_def)
    then show ?thesis by (simp add: fl_eval)
  qed
  have twice: "fdiv w h = Finite False 2"
    if "is_finite w" "is_finite h" "\<not> is_zero h" "fval w = 2 * fval h" for w h
  proof -
    from that have "fdiv w h = to_float False 2"
      by (intro fdiv_same_value) (simp_all add: is_zero_def)
    then show ?thesis by (simp add: fl_eval)
  qed
  have five: "ffloor (fmul (fl 5) (Finite False 1)) = fl 5"
    by (simp add: fl_eval op_eval)
  have ten: "ffloor (fmul (fl 5) (Finite False 2)) = fl 10"
    by (simp add: fl_eval op_eval)
  show ?thesis
    unfolding r
    by (auto simp only: calculate_num_ticks_def Let_def of_int32_exact square twice five ten
          if_True if_False simp_thms)
qed

theorem calculate_num_ticks_cases_witness:
  "calculate_num_ticks (example_axis 0 10 4 3 100 100) = [fl 4, fl 3] \<and>
   calculate_num_ticks (example_axis 0 10 4 0 200 100) = [fl 4, fl 2] \<and>
   calculate_num_ticks (example_axis 0 10 0 3 150 100) = [fl 4, fl 3] \<and>
   calculate_num_ticks (example_axis 0 10 0 0 100 100) = [fl 5, fl 5] \<and>
   calculate_num_ticks (example_axis 0 10 0 0 200 100) = [fl 10, fl 5]"
  using calculate_num_ticks_cases [of "fl 1" "example_axis 0 10 4 3 100 100"]
    calculate_num_ticks_cases [of "fl 2" "example_axis 0 10 4 0 200 100"]
    calculate_num_ticks_cases [of "fl (3 / 2)" "example_axis 0 10 0 3 150 100"]
    calculate_num_ticks_cases [of "fl 1" "example_axis 0 10 0 0 100 100"]
    calculate_num_ticks_cases [of "fl 2" "example_axis 0 10 0 0 200 100"]
  by (simp add: example_axis_def delta_def vsub_def fl_eval op_eval)

lemma and_then_Inr [simp]: "and_then (Inr v) k = k v"
  by (simp add: and_then_def)

lemma and_then_Inl [simp]: "and_then (Inl e) k = Inl e"
  by (simp add: and_then_def)

lemma xy_limits_of_eq:
  "xy_limits_of a =
     \<lparr>bmin = [if f_less (bmax (m_limits a) ! index X) (bmin (m_limits a) ! index X)
               then fl 0 else bmin (m_limits a) ! index X,
               if f_less (bmax (m_limits a) ! index Y) (bmin (m_limits a) ! index Y)
               then fl 0 else bmin (m_limits a) ! index Y],
      bmax = [if f_less (bmax (m_limits a) ! index X) (bmin (m_limits a) ! index X)
               then fl 1 else bmax (m_limits a) ! index X,
               if f_less (bmax (m_limits a) ! index Y) (bmin (m_limits a) ! index Y)
               then fl 1 else bmax (m_limits a) ! index Y]\<rparr>"
  by (simp add: xy_limits_of_def default_limits_def default_if_empty_def)

lemma upto_0_4: "[0 .. 4] = [0, 1, 2, 3, 4 :: int]"
  by (simp add: upto_rec1)

lemma fl_2 [simp]: "fl 2 = Finite False 2"
  by (simp add: fl_eval)

lemma round_off_two: "round_off [Finite False 2, Finite False 2] 2 = Some [Finite False 2, Finite False 2]"
  by (simp add: round_off_elem_def count_digits.simps fl_eval op_eval)

text \<open>
  C3. With the limits 0 and 10 on both axes, a viewport of 100 by 100 pixels, two
  significant digits and no requested tick counts, \<^verbatim>\<open>update_tick_information\<close> returns
  five x ticks and five y ticks with the values 0, 2, 4, 6, 8, which are non-decreasing,
  at the positions \<open>to_display 0\<close> plus (for y: minus) 0, 20, 40, 60, 80. The spacing is
  \<open>round_off (10 / 5, 2) = 2\<close> and the first tick \<open>ceil (0 / 2) * 2 = 0\<close>.
\<close>

theorem update_tick_information_example:
  assumes "bmin (m_limits a) ! index X = fl 0" "bmin (m_limits a) ! index Y = fl 0"
    and "bmax (m_limits a) ! index X = fl 10" "bmax (m_limits a) ! index Y = fl 10"
    and "delta (m_pixels a) = [fl 100, fl 100]"
    and "m_sig_digits a = 2"
    and "m_nx_ticks a \<le> 0" "m_ny_ticks a \<le> 0"
  shows "update_tick_information to_display a =
           Some (Inr (a\<lparr>m_tick_info :=
             \<lparr>x_val = [fl 0, fl 2, fl 4, fl 6, fl 8],
              x_pos = map (\<lambda>p. fadd (to_display X (fl 0)) (fl p)) [0, 20, 40, 60, 80],
              y_val = [fl 0, fl 2, fl 4, fl 6, fl 8],
              y_pos = map (\<lambda>p. fsub (to_display Y (fl 0)) (fl p)) [0, 20, 40, 60, 80]\<rparr>\<rparr>)) \<and>
         sorted_wrt (\<lambda>u v. f_ge v u) [fl 0, fl 2, fl 4, fl 6, fl 8] \<and>
         round_off [fdiv (fl 10) (fl 5), fdiv (fl 10) (fl 5)] 2 = Some [fl 2, fl 2] \<and>
         first_tick (fl 0) (fl 2) = fl 0"
proof -
  have n: "calculate_num_ticks a = [Finite False 5, Finite False 5]"
    using assms by (simp add: calculate_num_ticks_def fl_eval op_eval)
  have xy: "xy_limits_of a = \<lparr>bmin = [fl 0, fl 0], bmax = [fl 10, fl 10]\<rparr>"
    using assms by (simp add: xy_limits_of_eq fl_eval op_eval)
  have q: "vdiv (delta (xy_limits_of a)) (calculate_num_ticks a) = [Finite False 2, Finite False 2]"
    unfolding n xy by (simp add: vdiv_def delta_def vsub_def fl_eval op_eval)
  have dx: "round_off (vdiv (delta (xy_limits_of a)) (calculate_num_ticks a)) (m_sig_digits a) =
      Some [Finite False 2, Finite False 2]"
    unfolding q assms(6) by (rule round_off_two)
  have tmin: "vmul (vceil (vdiv (bmin (xy_limits_of a)) [Finite False 2, Finite False 2]))
      [Finite False 2, Finite False 2] = [fl 0, fl 0]"
    unfolding xy by (simp add: vmul_def vceil_def vdiv_def fl_eval op_eval)
  have pix: "vdiv (vmul [Finite False 2, Finite False 2] (delta (m_pixels a))) (delta (xy_limits_of a)) =
      [Finite False 20, Finite False 20]"
    unfolding xy assms(5) by (simp add: vmul_def vdiv_def delta_def vsub_def fl_eval op_eval)
  have cast: "static_cast_int (Finite False 5) = Inr 5"
    by (simp add: static_cast_int_def)
  have vals: "tick_values (fl 0) (Finite False 2) 5 = [fl 0, fl 2, fl 4, fl 6, fl 8]"
    by (simp add: tick_values_def upto_0_4) (simp add: fl_eval op_eval)
  have steps: "fmul (of_int32 0) (Finite False 20) = fl 0" "fmul (of_int32 1) (Finite False 20) = fl 20"
    "fmul (of_int32 2) (Finite False 20) = fl 40" "fmul (of_int32 3) (Finite False 20) = fl 60"
    "fmul (of_int32 4) (Finite False 20) = fl 80"
    by (simp_all add: fl_eval op_eval)
  have posx: "tick_values p (Finite False 20) 5 = map (\<lambda>q. fadd p (fl q)) [0, 20, 40, 60, 80]" for p
    by (simp add: tick_values_def upto_0_4 steps)
  have posy: "tick_positions_down p (Finite False 20) 5 = map (\<lambda>q. fsub p (fl q)) [0, 20, 40, 60, 80]" for p
    by (simp add: tick_positions_down_def upto_0_4 steps)
  have "update_tick_information to_display a =
           Some (Inr (a\<lparr>m_tick_info :=
             \<lparr>x_val = [fl 0, fl 2, fl 4, fl 6, fl 8],
              x_pos = map (\<lambda>p. fadd (to_display X (fl 0)) (fl p)) [0, 20, 40, 60, 80],
              y_val = [fl 0, fl 2, fl 4, fl 6, fl 8],
              y_pos = map (\<lambda>p. fsub (to_display Y (fl 0)) (fl p)) [0, 20, 40, 60, 80]\<rparr>\<rparr>))"
    unfolding update_tick_information_def Let_def dx option.case tmin pix
    by (simp only: n nth_Cons_0 nth_Cons_Suc One_nat_def cast and_then_Inr vals posx posy)
  moreover have "sorted_wrt (\<lambda>u v. f_ge v u) [fl 0, fl 2, fl 4, fl 6, fl 8]"
    by (simp add: fl_eval op_eval)
  moreover have "round_off [fdiv (fl 10) (fl 5), fdiv (fl 10) (fl 5)] 2 = Some [fl 2, fl 2]"
    by (simp add: round_off_elem_def count_digits.simps fl_eval op_eval)
  moreover have "first_tick (fl 0) (fl 2) = fl 0"
    by (simp add: first_tick_def fl_eval op_eval)
  ultimately show ?thesis by blast
qed

theorem update_tick_information_example_witness:
  "update_tick_information (\<lambda>a v. v) (example_axis 0 10 0 0 100 100) =
     Some (Inr (example_axis 0 10 0 0 100 100
       \<lparr>m_tick_info :=
          \<lparr>x_val = [fl 0, fl 2, fl 4, fl 6, fl 8],
           x_pos = [fl 0, fl 20, fl 40, fl 60, fl 80],
           y_val = [fl 0, fl 2, fl 4, fl 6, fl 8],
           y_pos = [fl 0, fl (- 20), fl (- 40), fl (- 60), fl (- 80)]\<rparr>\<rparr>))"
proof -
  have h: "bmin (m_limits (example_axis 0 10 0 0 100 100)) ! index X = fl 0"
    "bmin (m_limits (example_axis 0 10 0 0 100 100)) ! index Y = fl 0"
    "bmax (m_limits (example_axis 0 10 0 0 100 100)) ! index X = fl 10"
    "bmax (m_limits (example_axis 0 10 0 0 100 100)) ! index Y = fl 10"
    "m_sig_digits (example_axis 0 10 0 0 100 100) = 2"
    "m_nx_ticks (example_axis 0 10 0 0 100 100) \<le> 0"
    "m_ny_ticks (example_axis 0 10 0 0 100 100) \<le> 0"
    by (simp_all add: example_axis_def)
  have d: "delta (m_pixels (example_axis 0 10 0 0 100 100)) = [fl 100, fl 100]"
    by (simp add: example_axis_def delta_def vsub_def fl_eval op_eval)
  note t = update_tick_information_example [of "example_axis 0 10 0 0 100 100" "\<lambda>a v. v",
      OF h(1) h(2) h(3) h(4) d h(5) h(6) h(7), THEN conjunct1]
  have m1: "map (\<lambda>p. fadd (fl 0) (fl p)) [0, 20, 40, 60, 80] = [fl 0, fl 20, fl 40, fl 60, fl 80]"
    by simp (simp add: fl_eval op_eval)
  have m2: "map (\<lambda>p. fsub (fl 0) (fl p)) [0, 20, 40, 60, 80] =
      [fl 0, fl (- 20), fl (- 40), fl (- 60), fl (- 80)]"
    by simp (simp add: fl_eval op_eval)
  show ?thesis by (simp only: t m1 m2)
qed





text \<open>
  On a substituted axis with 1000 requested ticks the spacing \<open>round_off (1 / 1000, 2)\<close> is
  0, two digits after the decimal point being kept below 1; the first tick
  \<open>ceil (0 / 0) * 0\<close> is then NaN, and so is every tick value.
\<close>

lemma thousand_ticks_spacing:
  "round_off [fdiv (fl 1) (of_int32 1000)] 2 = Some [fl 0] \<and>
   first_tick (fl 0) (fl 0) = NaN \<and>
   tick_values NaN (fl 0) 3 = [NaN, NaN, NaN]"
proof -
  have "round_off [fdiv (fl 1) (of_int32 1000)] 2 = Some [fl 0]"
    by (simp add: round_off_elem_def count_digits.simps fl_eval op_eval)
  moreover have "first_tick (fl 0) (fl 0) = NaN"
    by (simp add: first_tick_def fl_eval op_eval)
  moreover have "tick_values NaN (fl 0) 3 = [NaN, NaN, NaN]"
    by (simp add: tick_values_def upto_rec1) (simp add: fadd_def)
  ultimately show ?thesis by blast
qed




section \<open>Properties of the series renderer\<close>

lemma reading_Inr [simp]: "reading (Inr v) k = k v"
  by (simp add: reading_def)

lemma reading_Inl [simp]: "reading (Inl e) k = ([], Some e)"
  by (simp add: reading_def)

lemma calls_pair [simp]: "calls cs (ds, e) = (cs @ ds, e)"
  by (simp add: calls_def)

lemma then_run_None [simp]: "then_run (cs, None) k = calls cs k"
  by (simp add: then_run_def)

lemma then_run_Some [simp]: "then_run (cs, Some e) k = (cs, Some e)"
  by (simp add: then_run_def)

lemma for_each_all:
  "(\<And>x. x \<in> set xs \<Longrightarrow> body x = (g x, None)) \<Longrightarrow>
     for_each body xs = (concat (map g xs), None)"
  by (induction xs) simp_all

lemma frame_at_Nil [simp]: "frame_at [] f = Inl OutOfRange"
  by (simp add: frame_at_def)

lemma frame_at_nth: "0 \<le> f \<Longrightarrow> f < int (length v) \<Longrightarrow> frame_at v f = Inr (v ! nat f)"
  by (simp add: frame_at_def)

lemma m_data_update_frame_info [simp]: "m_data (update_frame_info pts t) = m_data pts"
  by (simp add: update_frame_info_def Let_def)

lemma check_aesthetic_iff: "check_aesthetic d a \<longleftrightarrow> column d a \<noteq> None"
  by (simp add: check_aesthetic_def begin_aes_def split: option.splits)

lemma has_columnE:
  assumes "has_column n d a"
  obtains c where "column d a = Some c" and "n \<le> length c"
  using assms by (auto simp: has_column_def split: option.splits)

lemma iter_at_less [simp]: "i < length it \<Longrightarrow> iter_at it i = Inr (it ! i)"
  by (simp add: iter_at_def)

lemma begin_aes_Some [simp]: "column d a = Some c \<Longrightarrow> begin_aes d a = Inr c"
  by (simp add: begin_aes_def)

lemma begin_aes_None [simp]: "column d a = None \<Longrightarrow> begin_aes d a = Inl MissingAesthetic"
  by (simp add: begin_aes_def)

lemma upt_eval: "[0 ..< Suc n] = [0 ..< n] @ [n]" "[0 ..< 0] = []"
  by simp_all

lemma probed_pixel_self: "probed_pixel to_display d d i = row_pixel to_display d i"
  by (simp add: probed_pixel_def row_pixel_def split: option.splits)

lemma probed_pixel_same:
  "same_aesthetics df dp \<Longrightarrow> probed_pixel to_display df dp i = row_pixel to_display dp i"
  by (auto simp add: probed_pixel_def row_pixel_def same_aesthetics_def split: option.splits)

lemma frame_complete_follows: "frame_complete n d \<longleftrightarrow> follows n d d"
  by (auto simp add: frame_complete_def follows_def has_column_def fits_column_def
      split: option.splits)

lemma follows_same:
  "frame_complete n dp \<Longrightarrow> same_aesthetics df dp \<Longrightarrow> follows n df dp"
  by (auto simp add: frame_complete_def follows_def has_column_def fits_column_def
      same_aesthetics_def split: option.splits)

text \<open>The three loop bodies, for a row that the frames hold.\<close>

lemma draw_frames_keyframe_row:
  assumes i: "i < n" and k: "k < length (m_data pts)"
    and ok: "follows n d0 (m_data pts ! k)"
  shows "draw_frames_keyframe to_display to_color pts
           (check_aesthetic d0 Color) (check_aesthetic d0 Size) i k
         = (keyframe_at to_color (probed_pixel to_display d0 (m_data pts ! k) i) (m_times pts ! k),
            None)"
proof -
  let ?d = "m_data pts ! k"
  have fr: "frame_at (m_data pts) (int k) = Inr ?d"
    using k by (simp add: frame_at_def)
  from ok obtain x y where x: "column ?d X = Some x" "n \<le> length x"
    and y: "column ?d Y = Some y" "n \<le> length y"
    unfolding follows_def by (auto elim!: has_columnE)
  have c: "column d0 Color \<noteq> None \<Longrightarrow> \<exists>c. column ?d Color = Some c \<and> n \<le> length c"
    using ok unfolding follows_def by (auto elim!: has_columnE)
  have s: "column d0 Size \<noteq> None \<Longrightarrow> \<exists>c. column ?d Size = Some c \<and> n \<le> length c"
    using ok unfolding follows_def by (auto elim!: has_columnE)
  show ?thesis
    using i x y c s
    by (auto simp add: draw_frames_keyframe_def fr check_aesthetic_iff keyframe_at_def
        probed_pixel_def to_pixel_def Let_def numeral_2_eq_2 numeral_3_eq_3)
qed

lemma draw_plot_single_row:
  assumes i: "i < n"
    and x: "column df X = Some x" "n \<le> length x"
    and y: "column df Y = Some y" "n \<le> length y"
    and c: "if column df Color = None then c = x else column df Color = Some c \<and> n \<le> length c"
    and s: "if column df Size = None then s = x else column df Size = Some s \<and> n \<le> length s"
  shows "draw_plot_single to_display to_color (check_aesthetic df Color) (check_aesthetic df Size)
           x y c s i
         = (circle_at to_color (row_pixel to_display df i), None)"
proof -
  have len: "i < length x" "i < length y" using i x y by simp_all
  have len': "i < length c" "i < length s" using i c s x by (auto split: if_splits)
  show ?thesis
    using len len' x y c s
    by (auto simp: draw_plot_single_def circle_at_def row_pixel_def check_aesthetic_iff
        to_pixel_def Let_def numeral_2_eq_2 numeral_3_eq_3 split: if_splits)
qed

lemma to_pixel_length [simp]: "length (to_pixel to_display hc hs x y c s) = 4"
  by (simp add: to_pixel_def)

lemma draw_plot_between_row:
  assumes i: "i < n"
    and x1: "column df X = Some x1" "n \<le> length x1"
    and y1: "column df Y = Some y1" "n \<le> length y1"
    and x0: "column dp X = Some x0" "n \<le> length x0"
    and y0: "column dp Y = Some y0" "n \<le> length y0"
    and c1: "if column df Color = None then c1 = x1 else column df Color = Some c1 \<and> n \<le> length c1"
    and s1: "if column df Size = None then s1 = x1 else column df Size = Some s1 \<and> n \<le> length s1"
    and c0: "if column df Color = None then c0 = x0 else column dp Color = Some c0 \<and> n \<le> length c0"
    and s0: "if column df Size = None then s0 = x0 else column dp Size = Some s0 \<and> n \<le> length s0"
  shows "draw_plot_between to_display to_color (check_aesthetic df Color) (check_aesthetic df Size)
           wa wb x1 y1 c1 s1 x0 y0 c0 s0 i
         = (circle_at to_color
              (vadd (smul wa (probed_pixel to_display df df i))
                    (smul wb (probed_pixel to_display df dp i))), None)"
proof -
  have len: "i < length x1" "i < length y1" "i < length x0" "i < length y0"
    using i x1 y1 x0 y0 by simp_all
  have len': "i < length c1" "i < length s1" "i < length c0" "i < length s0"
    using i c1 s1 c0 s0 x1 x0 by (auto split: if_splits)
  show ?thesis
    using len len' x1 y1 x0 y0 c1 s1 c0 s0
    by (auto simp: draw_plot_between_def circle_at_def probed_pixel_def
        check_aesthetic_iff vadd_def smul_def to_pixel_def Let_def
        numeral_2_eq_2 numeral_3_eq_3 split: if_splits)
qed

text \<open>The three drawing paths, for frames that can be read.\<close>

lemma draw_frames_run:
  assumes ne: "m_data pts \<noteq> []"
    and d0: "d0 = m_data pts ! 0"
    and len: "length (m_times pts) \<le> length (m_data pts)"
    and ok: "\<And>k. k < length (m_times pts) \<Longrightarrow> follows (rows d0) d0 (m_data pts ! k)"
  shows "draw_frames to_display to_color pts =
           (StrokeWidth 0 #
            concat (map (\<lambda>i. concat (map (\<lambda>k. keyframe_at to_color
                                              (probed_pixel to_display d0 (m_data pts ! k) i)
                                              (m_times pts ! k))
                                       [0 ..< length (m_times pts)]) @ [EndAnimatedCircle])
                      [0 ..< rows d0]), None)"
proof -
  have f0: "frame_at (m_data pts) 0 = Inr d0"
    using ne d0 by (simp add: frame_at_def)
  have row: "draw_frames_row to_display to_color pts (check_aesthetic d0 Color)
               (check_aesthetic d0 Size) i
             = (concat (map (\<lambda>k. keyframe_at to_color
                                   (probed_pixel to_display d0 (m_data pts ! k) i)
                                   (m_times pts ! k))
                          [0 ..< length (m_times pts)]) @ [EndAnimatedCircle], None)"
    if "i < rows d0" for i
  proof -
    have "for_each (draw_frames_keyframe to_display to_color pts (check_aesthetic d0 Color)
               (check_aesthetic d0 Size) i) [0 ..< length (m_times pts)]
          = (concat (map (\<lambda>k. keyframe_at to_color
                                (probed_pixel to_display d0 (m_data pts ! k) i)
                                (m_times pts ! k))
                       [0 ..< length (m_times pts)]), None)"
      by (rule for_each_all) (use that len ok in \<open>simp add: draw_frames_keyframe_row\<close>)
    then show ?thesis by (simp add: draw_frames_row_def)
  qed
  have "for_each (draw_frames_row to_display to_color pts (check_aesthetic d0 Color)
               (check_aesthetic d0 Size)) [0 ..< rows d0]
        = (concat (map (\<lambda>i. concat (map (\<lambda>k. keyframe_at to_color
                                              (probed_pixel to_display d0 (m_data pts ! k) i)
                                              (m_times pts ! k))
                                       [0 ..< length (m_times pts)]) @ [EndAnimatedCircle])
                     [0 ..< rows d0]), None)"
    by (rule for_each_all) (simp add: row)
  then show ?thesis
    by (simp add: draw_frames_def f0 Let_def)
qed

lemma draw_plot_single_run:
  assumes f: "f = frame_above (m_frame_info pts)"
    and rng: "0 \<le> f" "f < int (length (m_data pts))"
    and w: "w2 (m_frame_info pts) = 0"
    and df: "df = m_data pts ! nat f"
    and n: "n = rows (m_data pts ! 0)"
    and ok: "frame_complete n df"
  shows "draw_plot to_display to_color pts =
           (StrokeWidth 0 #
            concat (map (\<lambda>i. circle_at to_color (row_pixel to_display df i)) [0 ..< n]), None)"
proof -
  have fa: "frame_at (m_data pts) f = Inr df"
    and f0: "frame_at (m_data pts) 0 = Inr (m_data pts ! 0)"
    using rng df by (auto simp: frame_at_def)
  from ok obtain x y where x: "column df X = Some x" "n \<le> length x"
    and y: "column df Y = Some y" "n \<le> length y"
    unfolding frame_complete_def by (auto elim!: has_columnE)
  obtain c where c: "if column df Color = None then c = x
                     else column df Color = Some c \<and> n \<le> length c"
    using ok by (cases "column df Color") (auto simp: frame_complete_def fits_column_def)
  obtain s where s: "if column df Size = None then s = x
                     else column df Size = Some s \<and> n \<le> length s"
    using ok by (cases "column df Size") (auto simp: frame_complete_def fits_column_def)
  have loop: "for_each (draw_plot_single to_display to_color (check_aesthetic df Color)
                 (check_aesthetic df Size) x y c s) [0 ..< n]
        = (concat (map (\<lambda>i. circle_at to_color (row_pixel to_display df i)) [0 ..< n]), None)"
    by (rule for_each_all) (simp add: draw_plot_single_row [OF _ x y c s])
  have it: "(if check_aesthetic df Color then begin_aes df Color else Inr x) = Inr c"
    "(if check_aesthetic df Size then begin_aes df Size else Inr x) = Inr s"
    using c s by (auto simp: check_aesthetic_iff)
  show ?thesis
    using w x y
    by (simp add: draw_plot_def Let_def fa f0 f [symmetric] it loop n [symmetric])
qed

lemma draw_plot_between_run:
  assumes f: "f = frame_above (m_frame_info pts)"
    and rng: "0 < f" "f < int (length (m_data pts))"
    and w: "w2 (m_frame_info pts) \<noteq> 0"
    and df: "df = m_data pts ! nat f"
    and dp: "dp = m_data pts ! nat (f - 1)"
    and n: "n = rows (m_data pts ! 0)"
    and ok: "frame_complete n df" "follows n df dp"
  shows "draw_plot to_display to_color pts =
           (StrokeWidth 0 #
            concat (map (\<lambda>i. circle_at to_color
                             (vadd (smul (w1 (m_frame_info pts)) (probed_pixel to_display df df i))
                                   (smul (w2 (m_frame_info pts)) (probed_pixel to_display df dp i))))
                      [0 ..< n]), None)"
proof -
  let ?wa = "w1 (m_frame_info pts)" and ?wb = "w2 (m_frame_info pts)"
  have fa: "frame_at (m_data pts) f = Inr df"
    and fp: "frame_at (m_data pts) (f - 1) = Inr dp"
    and f0: "frame_at (m_data pts) 0 = Inr (m_data pts ! 0)"
    using rng df dp by (auto simp: frame_at_def)
  from ok(1) obtain x1 y1 where x1: "column df X = Some x1" "n \<le> length x1"
    and y1: "column df Y = Some y1" "n \<le> length y1"
    unfolding frame_complete_def by (auto elim!: has_columnE)
  from ok(2) obtain x0 y0 where x0: "column dp X = Some x0" "n \<le> length x0"
    and y0: "column dp Y = Some y0" "n \<le> length y0"
    unfolding follows_def by (auto elim!: has_columnE)
  obtain c1 where c1: "if column df Color = None then c1 = x1
                       else column df Color = Some c1 \<and> n \<le> length c1"
    using ok(1) by (cases "column df Color") (auto simp: frame_complete_def fits_column_def)
  obtain s1 where s1: "if column df Size = None then s1 = x1
                       else column df Size = Some s1 \<and> n \<le> length s1"
    using ok(1) by (cases "column df Size") (auto simp: frame_complete_def fits_column_def)
  obtain c0 where c0: "if column df Color = None then c0 = x0
                       else column dp Color = Some c0 \<and> n \<le> length c0"
    using ok(2) by (cases "column df Color") (auto simp: follows_def elim!: has_columnE)
  obtain s0 where s0: "if column df Size = None then s0 = x0
                       else column dp Size = Some s0 \<and> n \<le> length s0"
    using ok(2) by (cases "column df Size") (auto simp: follows_def elim!: has_columnE)
  have loop: "for_each (draw_plot_between to_display to_color (check_aesthetic df Color)
                 (check_aesthetic df Size) ?wa ?wb x1 y1 c1 s1 x0 y0 c0 s0) [0 ..< n]
        = (concat (map (\<lambda>i. circle_at to_color
                             (vadd (smul ?wa (probed_pixel to_display df df i))
                                   (smul ?wb (probed_pixel to_display df dp i))))
                         [0 ..< n]), None)"
    by (rule for_each_all)
      (simp add: draw_plot_between_row [OF _ x1 y1 x0 y0 c1 s1 c0 s0])
  have it1: "(if check_aesthetic df Color then begin_aes df Color else Inr x1) = Inr c1"
    "(if check_aesthetic df Size then begin_aes df Size else Inr x1) = Inr s1"
    using c1 s1 by (auto simp: check_aesthetic_iff)
  have it0: "(if check_aesthetic df Color then begin_aes dp Color else Inr x0) = Inr c0"
    "(if check_aesthetic df Size then begin_aes dp Size else Inr x0) = Inr s0"
    using c0 s0 by (auto simp: check_aesthetic_iff)
  show ?thesis
    using w x1 y1 x0 y0
    by (simp add: draw_plot_def Let_def fa fp f0 f [symmetric] it1 it0 loop n [symmetric])
qed

lemmas eval_draw = draw_def draw_animated_def draw_frames_def draw_frames_row_def
  draw_frames_keyframe_def draw_plot_def draw_plot_single_def draw_plot_between_def
  update_frame_info_def series_def xy_frame_def full_frame_def frame_at_def
  check_aesthetic_def begin_aes_def to_pixel_def vadd_def smul_def Let_def upt_eval




text \<open>
  C5. When \<open>w2\<close> is not zero, \<^verbatim>\<open>draw_plot\<close> draws every row at the weighted sum
  \<open>w1 * to_pixel (row of frame f) + w2 * to_pixel (row of frame f - 1)\<close>: the axis transform
  is applied to the raw values of each frame before the blend. After \<^verbatim>\<open>stroke_width(0)\<close>,
  one \<^verbatim>\<open>fill_color\<close> and one \<^verbatim>\<open>circle\<close> are emitted per row, at the blended position,
  radius and colormap coordinate, and the run ends without a fault. The frames \<open>f\<close> and
  \<open>f - 1\<close> exist, are complete for the row count of frame 0 and have the same aesthetics.
\<close>

theorem draw_plot_blends:
  assumes f: "f = frame_above (m_frame_info pts)"
      and rng: "0 < f" "f < int (length (m_data pts))"
      and w: "w2 (m_frame_info pts) \<noteq> 0"
      and df: "df = m_data pts ! nat f"
      and dp: "dp = m_data pts ! nat (f - 1)"
      and n: "n = rows (m_data pts ! 0)"
      and ok: "frame_complete n df" "frame_complete n dp" "same_aesthetics df dp"
  shows "draw_plot to_display to_color pts =
           (StrokeWidth 0 #
            concat (map (\<lambda>i. circle_at to_color
                             (blended_row to_display (w1 (m_frame_info pts))
                                (w2 (m_frame_info pts)) df dp i))
                      [0 ..< n]), None)"
proof -
  have "follows n df dp" using ok(2,3) by (rule follows_same)
  from draw_plot_between_run [OF f rng w df dp n ok(1) this, of to_display to_color]
  show ?thesis
    by (simp add: blended_row_def probed_pixel_self probed_pixel_same [OF ok(3)])
qed

theorem draw_plot_blends_witness:
  "draw_plot (\<lambda>a v. v * v) (\<lambda>v. v)
     ((series [full_frame [0] [0] [0] [2], full_frame [4] [8] [1] [4]] [0, 1])
        \<lparr>m_frame_info := \<lparr>frame_above = 1, w1 = 1 / 4, w2 = 3 / 4\<rparr>\<rparr>)
   = ([StrokeWidth 0, FillColor (1 / 4), Circle [4, 16] 7], None)"
  using draw_plot_blends [of 1
      "(series [full_frame [0] [0] [0] [2], full_frame [4] [8] [1] [4]] [0, 1])
        \<lparr>m_frame_info := \<lparr>frame_above = 1, w1 = 1 / 4, w2 = 3 / 4\<rparr>\<rparr>"
      "full_frame [4] [8] [1] [4]" "full_frame [0] [0] [0] [2]" 1 "\<lambda>a v. v * v" "\<lambda>v. v"]
  by (simp add: series_def full_frame_def frame_complete_def has_column_def fits_column_def
      same_aesthetics_def circle_at_def blended_row_def row_pixel_def vadd_def smul_def)

lemma first_at_or_above_le: "first_at_or_above ts t \<le> length ts"
  by (induction ts) simp_all

lemma first_at_or_above_reaches:
  "first_at_or_above ts t < length ts \<Longrightarrow> t \<le> ts ! first_at_or_above ts t"
  by (induction ts) (simp_all split: if_splits)

lemma first_at_or_above_before:
  "j < first_at_or_above ts t \<Longrightarrow> ts ! j < t"
proof (induction ts arbitrary: j)
  case Nil
  then show ?case by simp
next
  case (Cons x xs)
  then show ?case
    by (cases j) (auto split: if_splits)
qed

lemma first_at_or_above_end:
  "first_at_or_above ts t = length ts \<longleftrightarrow> (\<forall>x\<in>set ts. x < t)"
  using first_at_or_above_le [of _ t]
  by (induction ts) (auto simp: not_le)

lemma frame_info_cases:
  "m_frame_info (update_frame_info pts t) =
     (if first_at_or_above (m_times pts) t = length (m_times pts)
      then \<lparr>frame_above = int (length (m_times pts)) - 1, w1 = 1, w2 = 0\<rparr>
      else if first_at_or_above (m_times pts) t = 0
      then \<lparr>frame_above = 0, w1 = 1, w2 = 0\<rparr>
      else \<lparr>frame_above = int (first_at_or_above (m_times pts) t),
            w1 = (t - m_times pts ! (first_at_or_above (m_times pts) t - 1)) /
                 (m_times pts ! first_at_or_above (m_times pts) t -
                  m_times pts ! (first_at_or_above (m_times pts) t - 1)),
            w2 = 1 - (t - m_times pts ! (first_at_or_above (m_times pts) t - 1)) /
                     (m_times pts ! first_at_or_above (m_times pts) t -
                      m_times pts ! (first_at_or_above (m_times pts) t - 1))\<rparr>)"
  by (simp add: update_frame_info_def Let_def)

text \<open>
  C4, as stated: when \<open>w2 = 0\<close> only the frame \<^verbatim>\<open>frameAbove\<close> is read. With frames at the
  times 0 and 1 and the query time 1, \<^verbatim>\<open>frameAbove\<close> is 1 and \<open>w2 = 0\<close>; the loop bound is
  still \<^verbatim>\<open>m_data[0].rows()\<close>, so frame 0, which is the frame \<^verbatim>\<open>frameAbove - 1\<close>, is read:
  two series with the same frame 1 are drawn differently when their frames 0 differ in
  the row count, and a frame 0 with more rows than frame 1 takes the iterators of frame 1
  past their columns. A series with fewer frames than timestamps is indexed past its last
  frame, and with timestamps out of order a query time that is a timestamp gets a
  weight \<open>w2\<close> other than 0.
\<close>

theorem frame_info_resolution_counterexample:
  "m_frame_info (update_frame_info (series [xy_frame [0] [0], xy_frame [5] [5]] [0, 1]) 1) =
     \<lparr>frame_above = 1, w1 = 1, w2 = 0\<rparr> \<and>
   draw (\<lambda>a v. v) (\<lambda>v. v) (series [xy_frame [0] [0], xy_frame [5] [5]] [0, 1]) 1 =
     ([StrokeWidth 0, FillColor 0, Circle [5, 5] 1], None) \<and>
   draw (\<lambda>a v. v) (\<lambda>v. v) (series [xy_frame [] [], xy_frame [5] [5]] [0, 1]) 1 =
     ([StrokeWidth 0], None) \<and>
   draw (\<lambda>a v. v) (\<lambda>v. v) (series [xy_frame [0, 1] [0, 1], xy_frame [5] [5]] [0, 1]) 1 =
     ([StrokeWidth 0, FillColor 0, Circle [5, 5] 1], Some OutOfRange) \<and>
   draw (\<lambda>a v. v) (\<lambda>v. v) (series [xy_frame [0] [0]] [0, 1]) 1 = ([], Some OutOfRange) \<and>
   m_frame_info
     (update_frame_info (series [xy_frame [0] [0], xy_frame [5] [5], xy_frame [7] [7]] [0, 2, 1]) 1) =
     \<lparr>frame_above = 1, w1 = 1 / 2, w2 = 1 / 2\<rparr>"
  by (simp add: eval_draw iter_at_def)

text \<open>
  C4, amended. For a series with at least one frame, as many frames as timestamps and
  non-decreasing timestamps, and every query time \<open>t\<close>: \<^verbatim>\<open>frameAbove\<close> is the index of the
  earliest frame with a timestamp \<open>\<ge> t\<close>, or of the last frame if \<open>t\<close> exceeds all
  timestamps; \<open>w1 + w2 = 1\<close>; when \<open>t\<close> is the timestamp of a frame, or lies before the first
  or after the last timestamp, \<open>w2 = 0\<close>; and when \<open>w2 = 0\<close> and the frame \<^verbatim>\<open>frameAbove\<close> is
  complete for the row count of frame 0, \<^verbatim>\<open>draw\<close> calls \<^verbatim>\<open>stroke_width(0)\<close> and then draws
  one circle per row, as many rows as frame 0 has, each at the pixel vector of that row
  of the frame \<^verbatim>\<open>frameAbove\<close>, and ends without a fault: no value of another frame is
  drawn and no frame outside the series is indexed. With the timestamps 0 and 1,
  \<open>t = 0.25\<close> gives \<^verbatim>\<open>frameAbove\<close> 1, \<open>w1 = 0.25\<close> and \<open>w2 = 0.75\<close>.
\<close>

theorem frame_info_resolution:
  assumes ne: "m_times pts \<noteq> []"
      and len: "length (m_data pts) = length (m_times pts)"
      and srt: "sorted (m_times pts)"
      and upd: "upd = update_frame_info pts t"
      and fi: "fi = m_frame_info upd"
      and f: "f = nat (frame_above fi)"
  shows "0 \<le> frame_above fi \<and> f < length (m_times pts) \<and>
         ((\<exists>x\<in>set (m_times pts). t \<le> x) \<longrightarrow>
            t \<le> m_times pts ! f \<and> (\<forall>j<f. m_times pts ! j < t)) \<and>
         ((\<forall>x\<in>set (m_times pts). x < t) \<longrightarrow> f = length (m_times pts) - 1) \<and>
         w1 fi + w2 fi = 1 \<and>
         (t \<in> set (m_times pts) \<or> t < hd (m_times pts) \<or> last (m_times pts) < t \<longrightarrow>
            w2 fi = 0) \<and>
         (w2 fi = 0 \<and> frame_complete (rows (m_data pts ! 0)) (m_data pts ! f) \<longrightarrow>
            draw to_display to_color pts t =
              (StrokeWidth 0 #
               concat (map (\<lambda>i. circle_at to_color (row_pixel to_display (m_data pts ! f) i))
                         [0 ..< rows (m_data pts ! 0)]), None)) \<and>
         (m_times pts = [0, 1] \<and> t = 1 / 4 \<longrightarrow>
            frame_above fi = 1 \<and> w1 fi = 1 / 4 \<and> w2 fi = 3 / 4)"
proof -
  let ?ts = "m_times pts"
  let ?k = "first_at_or_above ?ts t"
  have fic: "fi =
           (if ?k = length ?ts then \<lparr>frame_above = int (length ?ts) - 1, w1 = 1, w2 = 0\<rparr>
            else if ?k = 0 then \<lparr>frame_above = 0, w1 = 1, w2 = 0\<rparr>
            else \<lparr>frame_above = int ?k,
                  w1 = (t - ?ts ! (?k - 1)) / (?ts ! ?k - ?ts ! (?k - 1)),
                  w2 = 1 - (t - ?ts ! (?k - 1)) / (?ts ! ?k - ?ts ! (?k - 1))\<rparr>)"
    unfolding fi upd by (rule frame_info_cases)
  have kle: "?k \<le> length ?ts" by (rule first_at_or_above_le)
  have pos: "0 < length ?ts" using ne by simp
  have fk: "?k \<noteq> length ?ts \<Longrightarrow> f = ?k"
    unfolding f fic by simp
  have fend: "?k = length ?ts \<Longrightarrow> f = length ?ts - 1"
    unfolding f fic using pos by (simp add: nat_diff_distrib)
  have p1: "0 \<le> frame_above fi \<and> f < length ?ts"
  proof (cases "?k = length ?ts")
    case True
    then show ?thesis using fend pos unfolding fic by simp
  next
    case False
    then show ?thesis using fk kle unfolding fic by simp
  qed
  have p2: "(\<exists>x\<in>set ?ts. t \<le> x) \<longrightarrow> t \<le> ?ts ! f \<and> (\<forall>j<f. ?ts ! j < t)"
  proof
    assume "\<exists>x\<in>set ?ts. t \<le> x"
    then have nk: "?k \<noteq> length ?ts"
      unfolding first_at_or_above_end by (auto simp: not_less)
    then have "?k < length ?ts" using kle by simp
    then show "t \<le> ?ts ! f \<and> (\<forall>j<f. ?ts ! j < t)"
      unfolding fk [OF nk]
      by (simp add: first_at_or_above_reaches first_at_or_above_before)
  qed
  have p3: "(\<forall>x\<in>set ?ts. x < t) \<longrightarrow> f = length ?ts - 1"
    using fend unfolding first_at_or_above_end by simp
  have p4: "w1 fi + w2 fi = 1"
    unfolding fic by simp
  have p5: "t \<in> set ?ts \<or> t < hd ?ts \<or> last ?ts < t \<longrightarrow> w2 fi = 0"
  proof
    assume "t \<in> set ?ts \<or> t < hd ?ts \<or> last ?ts < t"
    then consider (on) "t \<in> set ?ts" | (before) "t < hd ?ts" | (after) "last ?ts < t"
      by blast
    then show "w2 fi = 0"
    proof cases
      case before
      then have "?k = 0" using ne by (cases ?ts) simp_all
      then show ?thesis unfolding fic by simp
    next
      case after
      have "\<forall>x\<in>set ?ts. x < t"
      proof
        fix x assume "x \<in> set ?ts"
        then obtain j where j: "j < length ?ts" "x = ?ts ! j"
          by (auto simp: in_set_conv_nth)
        then have "?ts ! j \<le> ?ts ! (length ?ts - 1)"
          using srt by (intro sorted_nth_mono) simp_all
        then have "x \<le> last ?ts" using j ne by (simp add: last_conv_nth)
        with after show "x < t" by simp
      qed
      then have "?k = length ?ts" by (simp only: first_at_or_above_end)
      then show ?thesis unfolding fic by simp
    next
      case on
      then have nk: "?k \<noteq> length ?ts"
        unfolding first_at_or_above_end by auto
      show ?thesis
      proof (cases "?k = 0")
        case True
        then show ?thesis using nk unfolding fic by simp
      next
        case False
        from nk kle have klt: "?k < length ?ts" by simp
        from on obtain m where m: "m < length ?ts" "t = ?ts ! m"
          by (auto simp: in_set_conv_nth)
        have "\<not> m < ?k"
          using first_at_or_above_before [of m ?ts t] m by auto
        then have "?ts ! ?k \<le> ?ts ! m"
          using srt m by (intro sorted_nth_mono) simp_all
        moreover have "t \<le> ?ts ! ?k" using klt by (rule first_at_or_above_reaches)
        ultimately have eq: "?ts ! ?k = t" using m by simp
        have "?ts ! (?k - 1) < t"
          using False by (intro first_at_or_above_before) simp
        then have "(t - ?ts ! (?k - 1)) / (?ts ! ?k - ?ts ! (?k - 1)) = 1"
          unfolding eq by simp
        then show ?thesis using nk False unfolding fic by simp
      qed
    qed
  qed
  have p6: "w2 fi = 0 \<and> frame_complete (rows (m_data pts ! 0)) (m_data pts ! f) \<longrightarrow>
            draw to_display to_color pts t =
              (StrokeWidth 0 #
               concat (map (\<lambda>i. circle_at to_color (row_pixel to_display (m_data pts ! f) i))
                         [0 ..< rows (m_data pts ! 0)]), None)"
  proof
    assume a: "w2 fi = 0 \<and> frame_complete (rows (m_data pts ! 0)) (m_data pts ! f)"
    have md: "m_data upd = m_data pts" unfolding upd by simp
    have fl: "f < length (m_data pts)" using p1 len by simp
    have fa: "frame_above fi = int f" using p1 f by simp
    have "draw_plot to_display to_color upd =
              (StrokeWidth 0 #
               concat (map (\<lambda>i. circle_at to_color (row_pixel to_display (m_data pts ! f) i))
                         [0 ..< rows (m_data pts ! 0)]), None)"
      by (rule draw_plot_single_run [where f = "int f"])
        (use a fl fa in \<open>simp_all add: fi [symmetric] md\<close>)
    then show "draw to_display to_color pts t =
              (StrokeWidth 0 #
               concat (map (\<lambda>i. circle_at to_color (row_pixel to_display (m_data pts ! f) i))
                         [0 ..< rows (m_data pts ! 0)]), None)"
      by (simp add: draw_def upd)
  qed
  have p7: "m_times pts = [0, 1] \<and> t = 1 / 4 \<longrightarrow>
            frame_above fi = 1 \<and> w1 fi = 1 / 4 \<and> w2 fi = 3 / 4"
    unfolding fic by auto
  show ?thesis
    using p1 p2 p3 p4 p5 p6 p7 by blast
qed

theorem frame_info_resolution_witness:
  "m_frame_info (update_frame_info (series [xy_frame [0] [0], xy_frame [4] [8]] [0, 1]) (1 / 4)) =
     \<lparr>frame_above = 1, w1 = 1 / 4, w2 = 3 / 4\<rparr> \<and>
   w2 (m_frame_info (update_frame_info (series [xy_frame [0] [0], xy_frame [4] [8]] [0, 1]) 1)) = 0 \<and>
   w2 (m_frame_info (update_frame_info (series [xy_frame [0] [0], xy_frame [4] [8]] [0, 1]) 2)) = 0 \<and>
   w2 (m_frame_info (update_frame_info (series [xy_frame [0] [0], xy_frame [4] [8]] [0, 1]) (- 1))) = 0 \<and>
   draw (\<lambda>a v. v * v) (\<lambda>v. v) (series [xy_frame [0] [0], xy_frame [4] [8]] [0, 1]) (- 1) =
     ([StrokeWidth 0, FillColor 0, Circle [0, 0] 1], None) \<and>
   draw (\<lambda>a v. v * v) (\<lambda>v. v) (series [xy_frame [0] [0], xy_frame [4] [8]] [0, 1]) 1 =
     ([StrokeWidth 0, FillColor 0, Circle [16, 64] 1], None)"
proof -
  let ?s = "series [xy_frame [0] [0], xy_frame [4] [8]] [0, 1]"
  have ts: "m_times ?s = [0, 1]" by (simp add: series_def)
  have ne: "m_times ?s \<noteq> []" by (simp add: series_def)
  have len: "length (m_data ?s) = length (m_times ?s)" by (simp add: series_def)
  have srt: "sorted (m_times ?s)" by (simp add: series_def)
  note r = frame_info_resolution [OF ne len srt refl refl refl, of _ "\<lambda>a v. v * v" "\<lambda>v. v :: real"]
  have quarter: "m_frame_info (update_frame_info ?s (1 / 4)) = \<lparr>frame_above = 1, w1 = 1 / 4, w2 = 3 / 4\<rparr>"
    using r [of "1 / 4"] ts by simp
  have on: "w2 (m_frame_info (update_frame_info ?s 1)) = 0"
    using r [of 1] ts by simp
  have after: "w2 (m_frame_info (update_frame_info ?s 2)) = 0"
    using r [of 2] ts by simp
  have before: "w2 (m_frame_info (update_frame_info ?s (- 1))) = 0"
    using r [of "- 1"] ts by simp
  have f0: "nat (frame_above (m_frame_info (update_frame_info ?s (- 1)))) = 0"
    by (simp add: update_frame_info_def series_def)
  have f1: "nat (frame_above (m_frame_info (update_frame_info ?s 1))) = 1"
    by (simp add: update_frame_info_def series_def)
  have c0: "frame_complete (rows (m_data ?s ! 0)) (m_data ?s ! 0)"
    by (simp add: series_def xy_frame_def frame_complete_def has_column_def fits_column_def)
  have c1: "frame_complete (rows (m_data ?s ! 0)) (m_data ?s ! 1)"
    by (simp add: series_def xy_frame_def frame_complete_def has_column_def fits_column_def)
  have d0: "draw (\<lambda>a v. v * v) (\<lambda>v. v) ?s (- 1) =
      (StrokeWidth 0 #
       concat (map (\<lambda>i. circle_at (\<lambda>v. v) (row_pixel (\<lambda>a v. v * v) (m_data ?s ! 0) i))
                 [0 ..< rows (m_data ?s ! 0)]), None)"
    using r [of "- 1"] before c0 unfolding f0 by blast
  have d1: "draw (\<lambda>a v. v * v) (\<lambda>v. v) ?s 1 =
      (StrokeWidth 0 #
       concat (map (\<lambda>i. circle_at (\<lambda>v. v) (row_pixel (\<lambda>a v. v * v) (m_data ?s ! 1) i))
                 [0 ..< rows (m_data ?s ! 0)]), None)"
    using r [of 1] on c1 unfolding f1 by blast
  have e0: "draw (\<lambda>a v. v * v) (\<lambda>v. v) ?s (- 1) = ([StrokeWidth 0, FillColor 0, Circle [0, 0] 1], None)"
    unfolding d0 by (simp add: series_def xy_frame_def circle_at_def row_pixel_def)
  have e1: "draw (\<lambda>a v. v * v) (\<lambda>v. v) ?s 1 = ([StrokeWidth 0, FillColor 0, Circle [16, 64] 1], None)"
    unfolding d1 by (simp add: series_def xy_frame_def circle_at_def row_pixel_def)
  show ?thesis
    using quarter on after before e0 e1 by blast
qed

text \<open>
  C8, as stated: a frame that lacks the size aesthetic is drawn at the radius 1 whatever
  the other frames hold, on both paths. On the animated path the aesthetics are probed on
  frame 0 alone: when frame 0 has a size and frame 1 has none, \<^verbatim>\<open>begin<size>()\<close> throws
  for frame 1 after the keyframe of frame 0 has been drawn, and no keyframe of frame 1
  is. On the path with a query time, between two frames, the radius is \<open>w1 * 1 + w2 * 1\<close>:
  \<^verbatim>\<open>draw_plot\<close> with the weights 1/4 and 1/2 draws the radius 3/4.
\<close>

theorem absent_aesthetic_defaults_counterexample:
  "draw_animated (\<lambda>a v. v) (\<lambda>v. v) (series [full_frame [0] [0] [0] [2], xy_frame [4] [8]] [0, 1]) =
     ([StrokeWidth 0, FillColor 0, AddAnimatedCircle [0, 0] 2 0], Some MissingAesthetic) \<and>
   draw_plot (\<lambda>a v. v) (\<lambda>v. v)
     ((series [xy_frame [0] [0], xy_frame [4] [8]] [0, 1])
        \<lparr>m_frame_info := \<lparr>frame_above = 1, w1 = 1 / 4, w2 = 1 / 2\<rparr>\<rparr>) =
     ([StrokeWidth 0, FillColor 0, Circle [1, 2] (3 / 4)], None)"
  by (simp add: eval_draw iter_at_def)

text \<open>
  C8, amended. The aesthetics are probed once per call, on frame 0 by \<^verbatim>\<open>draw_frames\<close> and
  on the frame \<^verbatim>\<open>frameAbove\<close> by \<^verbatim>\<open>draw_plot\<close>. When the frames that are drawn have the
  columns of the probed frame, every row is drawn, and where the probed frame lacks the
  colour aesthetic the colormap position is 0, and where it lacks the size aesthetic the
  radius is 1, whatever colour and size values the other frames hold: for every keyframe
  of the animated path, for every circle of a single frame, and between two frames with
  the position \<open>w1 * 0 + w2 * 0 = 0\<close> and the radius \<open>w1 * 1 + w2 * 1 = w1 + w2\<close>, which is
  1 for weights that sum to 1.
\<close>

theorem absent_aesthetic_defaults:
  "(m_data pts \<noteq> [] \<and> length (m_times pts) \<le> length (m_data pts) \<and>
    (\<forall>k<length (m_times pts).
       follows (rows (m_data pts ! 0)) (m_data pts ! 0) (m_data pts ! k)) \<longrightarrow>
      draw_animated to_display to_color pts =
        (StrokeWidth 0 #
         concat (map (\<lambda>i. concat (map (\<lambda>k. keyframe_at to_color
                                           (probed_pixel to_display (m_data pts ! 0) (m_data pts ! k) i)
                                           (m_times pts ! k))
                                    [0 ..< length (m_times pts)]) @ [EndAnimatedCircle])
                   [0 ..< rows (m_data pts ! 0)]), None)) \<and>
   (f = frame_above (m_frame_info pts) \<and> 0 \<le> f \<and> f < int (length (m_data pts)) \<and>
    w2 (m_frame_info pts) = 0 \<and>
    frame_complete (rows (m_data pts ! 0)) (m_data pts ! nat f) \<longrightarrow>
      draw_plot to_display to_color pts =
        (StrokeWidth 0 #
         concat (map (\<lambda>i. circle_at to_color
                          (probed_pixel to_display (m_data pts ! nat f) (m_data pts ! nat f) i))
                   [0 ..< rows (m_data pts ! 0)]), None)) \<and>
   (f = frame_above (m_frame_info pts) \<and> 0 < f \<and> f < int (length (m_data pts)) \<and>
    w2 (m_frame_info pts) \<noteq> 0 \<and>
    frame_complete (rows (m_data pts ! 0)) (m_data pts ! nat f) \<and>
    follows (rows (m_data pts ! 0)) (m_data pts ! nat f) (m_data pts ! nat (f - 1)) \<longrightarrow>
      draw_plot to_display to_color pts =
        (StrokeWidth 0 #
         concat (map (\<lambda>i. circle_at to_color
                          (vadd (smul (w1 (m_frame_info pts))
                                   (probed_pixel to_display (m_data pts ! nat f) (m_data pts ! nat f) i))
                                (smul (w2 (m_frame_info pts))
                                   (probed_pixel to_display (m_data pts ! nat f)
                                      (m_data pts ! nat (f - 1)) i))))
                   [0 ..< rows (m_data pts ! 0)]), None)) \<and>
   (column probe Color = None \<longrightarrow>
      probed_pixel to_display probe d i ! 2 = 0 \<and>
      vadd (smul wa (probed_pixel to_display probe probe i))
           (smul wb (probed_pixel to_display probe d i)) ! 2 = 0) \<and>
   (column probe Size = None \<longrightarrow>
      probed_pixel to_display probe d i ! 3 = 1 \<and>
      vadd (smul wa (probed_pixel to_display probe probe i))
           (smul wb (probed_pixel to_display probe d i)) ! 3 = wa + wb)"
proof (intro conjI impI)
  assume a: "m_data pts \<noteq> [] \<and> length (m_times pts) \<le> length (m_data pts) \<and>
    (\<forall>k<length (m_times pts).
       follows (rows (m_data pts ! 0)) (m_data pts ! 0) (m_data pts ! k))"
  then have "draw_frames to_display to_color pts =
        (StrokeWidth 0 #
         concat (map (\<lambda>i. concat (map (\<lambda>k. keyframe_at to_color
                                           (probed_pixel to_display (m_data pts ! 0) (m_data pts ! k) i)
                                           (m_times pts ! k))
                                    [0 ..< length (m_times pts)]) @ [EndAnimatedCircle])
                   [0 ..< rows (m_data pts ! 0)]), None)"
    by (intro draw_frames_run) simp_all
  then show "draw_animated to_display to_color pts =
        (StrokeWidth 0 #
         concat (map (\<lambda>i. concat (map (\<lambda>k. keyframe_at to_color
                                           (probed_pixel to_display (m_data pts ! 0) (m_data pts ! k) i)
                                           (m_times pts ! k))
                                    [0 ..< length (m_times pts)]) @ [EndAnimatedCircle])
                   [0 ..< rows (m_data pts ! 0)]), None)"
    by (simp add: draw_animated_def)
next
  assume a: "f = frame_above (m_frame_info pts) \<and> 0 \<le> f \<and> f < int (length (m_data pts)) \<and>
    w2 (m_frame_info pts) = 0 \<and>
    frame_complete (rows (m_data pts ! 0)) (m_data pts ! nat f)"
  then show "draw_plot to_display to_color pts =
        (StrokeWidth 0 #
         concat (map (\<lambda>i. circle_at to_color
                          (probed_pixel to_display (m_data pts ! nat f) (m_data pts ! nat f) i))
                   [0 ..< rows (m_data pts ! 0)]), None)"
    unfolding probed_pixel_self
    using draw_plot_single_run [of f pts "m_data pts ! nat f" "rows (m_data pts ! 0)"
        to_display to_color]
    by blast
next
  assume a: "f = frame_above (m_frame_info pts) \<and> 0 < f \<and> f < int (length (m_data pts)) \<and>
    w2 (m_frame_info pts) \<noteq> 0 \<and>
    frame_complete (rows (m_data pts ! 0)) (m_data pts ! nat f) \<and>
    follows (rows (m_data pts ! 0)) (m_data pts ! nat f) (m_data pts ! nat (f - 1))"
  then show "draw_plot to_display to_color pts =
        (StrokeWidth 0 #
         concat (map (\<lambda>i. circle_at to_color
                          (vadd (smul (w1 (m_frame_info pts))
                                   (probed_pixel to_display (m_data pts ! nat f) (m_data pts ! nat f) i))
                                (smul (w2 (m_frame_info pts))
                                   (probed_pixel to_display (m_data pts ! nat f)
                                      (m_data pts ! nat (f - 1)) i))))
                   [0 ..< rows (m_data pts ! 0)]), None)"
    using draw_plot_between_run [of f pts "m_data pts ! nat f" "m_data pts ! nat (f - 1)"
        "rows (m_data pts ! 0)" to_display to_color]
    by blast
next
  assume "column probe Color = None"
  then show "probed_pixel to_display probe d i ! 2 = 0"
    by (simp add: probed_pixel_def numeral_2_eq_2)
next
  assume "column probe Color = None"
  then show "vadd (smul wa (probed_pixel to_display probe probe i))
           (smul wb (probed_pixel to_display probe d i)) ! 2 = 0"
    by (simp add: probed_pixel_def vadd_def smul_def numeral_2_eq_2)
next
  assume "column probe Size = None"
  then show "probed_pixel to_display probe d i ! 3 = 1"
    by (simp add: probed_pixel_def numeral_3_eq_3)
next
  assume "column probe Size = None"
  then show "vadd (smul wa (probed_pixel to_display probe probe i))
           (smul wb (probed_pixel to_display probe d i)) ! 3 = wa + wb"
    by (simp add: probed_pixel_def vadd_def smul_def numeral_3_eq_3)
qed

theorem absent_aesthetic_defaults_witness:
  "draw_animated (\<lambda>a v. v) (\<lambda>v. v)
     (series [xy_frame [0] [0], full_frame [4] [8] [1] [7]] [0, 1]) =
     ([StrokeWidth 0, FillColor 0, AddAnimatedCircle [0, 0] 1 0,
       FillColor 0, AddAnimatedCircle [4, 8] 1 1, EndAnimatedCircle], None) \<and>
   draw_plot (\<lambda>a v. v) (\<lambda>v. v)
     ((series [full_frame [0] [0] [1] [7], xy_frame [4] [8]] [0, 1])
        \<lparr>m_frame_info := \<lparr>frame_above = 1, w1 = 1, w2 = 0\<rparr>\<rparr>) =
     ([StrokeWidth 0, FillColor 0, Circle [4, 8] 1], None) \<and>
   draw_plot (\<lambda>a v. v) (\<lambda>v. v)
     ((series [full_frame [0] [0] [1] [7], xy_frame [4] [8]] [0, 1])
        \<lparr>m_frame_info := \<lparr>frame_above = 1, w1 = 1 / 4, w2 = 3 / 4\<rparr>\<rparr>) =
     ([StrokeWidth 0, FillColor 0, Circle [1, 2] 1], None)"
proof -
  let ?a = "series [xy_frame [0] [0], full_frame [4] [8] [1] [7]] [0, 1]"
  let ?s = "series [full_frame [0] [0] [1] [7], xy_frame [4] [8]] [0, 1]"
  let ?b = "?s\<lparr>m_frame_info := \<lparr>frame_above = 1, w1 = 1, w2 = 0\<rparr>\<rparr>"
  let ?c = "?s\<lparr>m_frame_info := \<lparr>frame_above = 1, w1 = 1 / 4, w2 = 3 / 4\<rparr>\<rparr>"
  have ha: "m_data ?a \<noteq> [] \<and> length (m_times ?a) \<le> length (m_data ?a) \<and>
    (\<forall>k<length (m_times ?a). follows (rows (m_data ?a ! 0)) (m_data ?a ! 0) (m_data ?a ! k))"
    by (simp add: series_def xy_frame_def full_frame_def follows_def has_column_def
        less_Suc_eq numeral_2_eq_2)
  have hb: "1 = frame_above (m_frame_info ?b) \<and> 0 \<le> (1 :: int) \<and> 1 < int (length (m_data ?b)) \<and>
    w2 (m_frame_info ?b) = 0 \<and>
    frame_complete (rows (m_data ?b ! 0)) (m_data ?b ! nat 1)"
    by (simp add: series_def xy_frame_def full_frame_def frame_complete_def has_column_def
        fits_column_def)
  have hc: "1 = frame_above (m_frame_info ?c) \<and> 0 < (1 :: int) \<and> 1 < int (length (m_data ?c)) \<and>
    w2 (m_frame_info ?c) \<noteq> 0 \<and>
    frame_complete (rows (m_data ?c ! 0)) (m_data ?c ! nat 1) \<and>
    follows (rows (m_data ?c ! 0)) (m_data ?c ! nat 1) (m_data ?c ! nat (1 - 1))"
    by (simp add: series_def xy_frame_def full_frame_def frame_complete_def has_column_def
        fits_column_def follows_def)
  note ta = absent_aesthetic_defaults [where pts = ?a and to_display = "\<lambda>a v. v" and
      to_color = "\<lambda>v. v", THEN conjunct1, THEN mp, OF ha]
  note tb = absent_aesthetic_defaults [where pts = ?b and f = 1 and to_display = "\<lambda>a v. v" and
      to_color = "\<lambda>v. v", THEN conjunct2, THEN conjunct1, THEN mp, OF hb]
  note tc = absent_aesthetic_defaults [where pts = ?c and f = 1 and to_display = "\<lambda>a v. v" and
      to_color = "\<lambda>v. v", THEN conjunct2, THEN conjunct2, THEN conjunct1, THEN mp, OF hc]
  have ea: "draw_animated (\<lambda>a v. v) (\<lambda>v. v) ?a =
     ([StrokeWidth 0, FillColor 0, AddAnimatedCircle [0, 0] 1 0,
       FillColor 0, AddAnimatedCircle [4, 8] 1 1, EndAnimatedCircle], None)"
    unfolding ta
    by (simp add: series_def xy_frame_def full_frame_def keyframe_at_def probed_pixel_def upt_eval)
  have eb: "draw_plot (\<lambda>a v. v) (\<lambda>v. v) ?b = ([StrokeWidth 0, FillColor 0, Circle [4, 8] 1], None)"
    unfolding tb
    by (simp add: series_def xy_frame_def full_frame_def circle_at_def probed_pixel_def upt_eval)
  have ec: "draw_plot (\<lambda>a v. v) (\<lambda>v. v) ?c = ([StrokeWidth 0, FillColor 0, Circle [1, 2] 1], None)"
    unfolding tc
    by (simp add: series_def xy_frame_def full_frame_def circle_at_def probed_pixel_def
        vadd_def smul_def upt_eval)
  from ea eb ec show ?thesis by blast
qed

end
